theory Spec2Isabelle
  imports Main "HOL-Library.Word" "HOL-Library.Signed_Division" "HOL-Library.Monad_Syntax"
begin

unbundle bit_operations_syntax

section \<open>Register and address map (libmme1536\_v1.h)\<close>

text \<open>
  The driver's C \<open>int\<close> is 32 bits wide. Data words, register values and everything
  that is shifted or masked are \<open>32 word\<close>; plain scalars that are only compared,
  divided by 32 or used as loop bounds (\<open>n\<close>, \<open>t\<close>, operand identifiers, interrupt
  counts) are \<open>int\<close>. A pointer \<open>int *\<close> is the memory seen from it, indexed by
  element: the C code carries no length with it.
\<close>

type_synonym word32 = "32 word"
type_synonym buffer = "nat \<Rightarrow> word32"

abbreviation LOW_PART :: int where "LOW_PART \<equiv> 1"
abbreviation HIGH_PART :: int where "HIGH_PART \<equiv> 2"
abbreviation TOT_PIPELINE :: int where "TOT_PIPELINE \<equiv> 3"

abbreviation OPERAND_0 :: int where "OPERAND_0 \<equiv> 0"
abbreviation OPERAND_1 :: int where "OPERAND_1 \<equiv> 1"
abbreviation OPERAND_2 :: int where "OPERAND_2 \<equiv> 2"
abbreviation OPERAND_3 :: int where "OPERAND_3 \<equiv> 3"
abbreviation MODULUS :: int where "MODULUS \<equiv> 4"

abbreviation BITS_LOW :: int where "BITS_LOW \<equiv> 512"
abbreviation BITS_HIGH :: int where "BITS_HIGH \<equiv> 1024"
abbreviation BITS_TOT :: int where "BITS_TOT \<equiv> 1536"

abbreviation WORDS_LOW :: nat where "WORDS_LOW \<equiv> 16"
abbreviation WORDS_HIGH :: nat where "WORDS_HIGH \<equiv> 32"
abbreviation WORDS_TOT :: nat where "WORDS_TOT \<equiv> 48"

abbreviation ADDR_STEP :: nat where "ADDR_STEP \<equiv> 4"
abbreviation HIGH_OFFSET :: nat where "HIGH_OFFSET \<equiv> 64"

abbreviation OP0_OFFSET :: nat where "OP0_OFFSET \<equiv> 0x1000"
abbreviation OP1_OFFSET :: nat where "OP1_OFFSET \<equiv> 0x2000"
abbreviation OP2_OFFSET :: nat where "OP2_OFFSET \<equiv> 0x3000"
abbreviation OP3_OFFSET :: nat where "OP3_OFFSET \<equiv> 0x4000"
abbreviation M_OFFSET :: nat where "M_OFFSET \<equiv> 0"
abbreviation FIFO_OFFSET :: nat where "FIFO_OFFSET \<equiv> 0x5000"

abbreviation P_SEL_BITS :: nat where "P_SEL_BITS \<equiv> 30"
abbreviation DEST_BITS :: nat where "DEST_BITS \<equiv> 28"
abbreviation X_OP_BITS :: nat where "X_OP_BITS \<equiv> 26"
abbreviation Y_OP_BITS :: nat where "Y_OP_BITS \<equiv> 24"

abbreviation TIMEOUT_US :: int where "TIMEOUT_US \<equiv> 140000"

abbreviation MME1536_INTR_DGIER_OFFSET :: nat where "MME1536_INTR_DGIER_OFFSET \<equiv> 0x21C"
abbreviation MME1536_INTR_IPIER_OFFSET :: nat where "MME1536_INTR_IPIER_OFFSET \<equiv> 0x228"
abbreviation INTR_GIE_MASK :: word32 where "INTR_GIE_MASK \<equiv> 0x80000000"

section \<open>The session and the world it drives\<close>

text \<open>
  \<open>MME1536\<close> is the struct of libmme1536\_types.h (the fields \<open>n\<close>, \<open>words\<close> and
  \<open>part\<close> carry a prefix; \<open>tv\<close> and \<open>select_fd\<close> are written once and never read).
  The pointer \<open>R2\<close> is two fields: the address \<open>malloc\<close> gave (\<open>R2_ptr\<close>) and the
  words stored there (\<open>R2\<close>).
\<close>

record MME1536 =
  data_fd :: int
  ctrl_fd :: int
  ctrl_ptr :: int
  data_ptr :: int
  uio_dev :: string
  prev_tot_ints :: int
  R2_ptr :: int
  R2 :: buffer
  mme_n :: int
  mme_words :: int
  mme_part :: int

record timeval =
  tv_sec :: int
  tv_usec :: int

text \<open>
  Everything outside the driver: the two mapped regions (by byte offset), the log of what
  the driver did to them, and what the environment will answer to the next calls of
  \<open>gettimeofday\<close> and of \<open>read\<close> on the UIO descriptor. A \<open>read\<close> that fails (the
  descriptor is opened \<open>O_NONBLOCK\<close>) leaves the caller's buffer untouched: \<open>None\<close>.
  An exhausted answer list means the call has not returned.
  \<open>Printf\<close> stands for \<open>printf\<close> and \<open>perror\<close> alike and carries the format string,
  without its final newline, and the integer arguments.
  What the accelerator itself does to the data region after a start is not modelled: the
  data region is plain memory, read back as written.
\<close>

datatype event =
    CtrlRead nat
  | CtrlWrite nat word32
  | DataRead nat
  | DataWrite nat word32
  | UioRead
  | UioWrite int
  | Gettimeofday
  | Usleep int
  | Printf string "int list"

record world =
  ctrl_mem :: "nat \<Rightarrow> word32"
  data_mem :: "nat \<Rightarrow> word32"
  trace :: "event list"
  clock :: "timeval list"
  uio :: "int option list"

definition emit :: "event \<Rightarrow> world \<Rightarrow> world" where
  "emit e w = w\<lparr>trace := trace w @ [e]\<rparr>"

definition ctrl_read :: "nat \<Rightarrow> world \<Rightarrow> word32 \<times> world" where
  "ctrl_read off w = (ctrl_mem w off, emit (CtrlRead off) w)"

definition ctrl_write :: "nat \<Rightarrow> word32 \<Rightarrow> world \<Rightarrow> world" where
  "ctrl_write off v w = emit (CtrlWrite off v) (w\<lparr>ctrl_mem := (ctrl_mem w)(off := v)\<rparr>)"

definition data_read :: "nat \<Rightarrow> world \<Rightarrow> word32 \<times> world" where
  "data_read off w = (data_mem w off, emit (DataRead off) w)"

definition data_write :: "nat \<Rightarrow> word32 \<Rightarrow> world \<Rightarrow> world" where
  "data_write off v w = emit (DataWrite off v) (w\<lparr>data_mem := (data_mem w)(off := v)\<rparr>)"

definition usleep :: "int \<Rightarrow> world \<Rightarrow> world" where
  "usleep us w = emit (Usleep us) w"

definition printf :: "string \<Rightarrow> int list \<Rightarrow> world \<Rightarrow> world" where
  "printf fmt args w = emit (Printf fmt args) w"

definition gettimeofday :: "world \<Rightarrow> (timeval \<times> world) option" where
  "gettimeofday w =
     (case clock w of
        [] \<Rightarrow> None
      | t # ts \<Rightarrow> Some (t, emit Gettimeofday (w\<lparr>clock := ts\<rparr>)))"

text \<open>\<open>read(ctrl_fd, &buf, sizeof(int))\<close>: takes the buffer's content, gives its new content.\<close>

definition uio_read :: "int \<Rightarrow> world \<Rightarrow> (int \<times> world) option" where
  "uio_read buf w =
     (case uio w of
        [] \<Rightarrow> None
      | r # rs \<Rightarrow> Some ((case r of None \<Rightarrow> buf | Some v \<Rightarrow> v), emit UioRead (w\<lparr>uio := rs\<rparr>)))"

definition uio_write :: "int \<Rightarrow> world \<Rightarrow> world" where
  "uio_write v w = emit (UioWrite v) w"

text \<open>The events a call added to the log.\<close>

definition new_events :: "world \<Rightarrow> world \<Rightarrow> event list" where
  "new_events w w' = drop (length (trace w)) (trace w')"

fun ctrl_writes :: "event list \<Rightarrow> word32 list" where
  "ctrl_writes [] = []"
| "ctrl_writes (CtrlWrite off v # es) = (if off = 0 then v # ctrl_writes es else ctrl_writes es)"
| "ctrl_writes (e # es) = ctrl_writes es"

section \<open>Starting the core\<close>

text \<open>\<open>x << k\<close> on a C \<open>int\<close>, in two's complement.\<close>

definition shl :: "int \<Rightarrow> nat \<Rightarrow> word32" where
  "shl x k = push_bit k (word_of_int x)"

definition MME1536_StartSingle :: "int \<Rightarrow> int \<Rightarrow> int \<Rightarrow> int \<Rightarrow> world \<Rightarrow> world" where
  "MME1536_StartSingle p_sel destination x_op y_op w =
     (let (control, w) = ctrl_read 0 w;
          control = control AND 0x003fffff;
          control = control OR (shl p_sel P_SEL_BITS OR shl destination DEST_BITS
                      OR shl x_op X_OP_BITS OR shl y_op Y_OP_BITS OR 0x00800000);
          w = ctrl_write 0 control w;
          control = control AND 0xff7fffff;
          w = usleep 1 w
      in ctrl_write 0 control w)"

definition MME1536_StartSingle_m :: "MME1536 \<Rightarrow> int \<Rightarrow> int \<Rightarrow> int \<Rightarrow> world \<Rightarrow> world" where
  "MME1536_StartSingle_m device_instance destination x_op y_op w =
     (let (control, w) = ctrl_read 0 w;
          control = control AND 0x003fffff;
          control = control OR (shl (mme_part device_instance) P_SEL_BITS OR shl destination DEST_BITS
                      OR shl x_op X_OP_BITS OR shl y_op Y_OP_BITS OR 0x00800000);
          w = ctrl_write 0 control w;
          control = control AND 0xff7fffff;
          w = usleep 1 w
      in ctrl_write 0 control w)"

definition MME1536_StartAuto :: "int \<Rightarrow> world \<Rightarrow> world" where
  "MME1536_StartAuto p_sel w =
     (let control = 0x00c00000 OR shl p_sel P_SEL_BITS;
          w = ctrl_write 0 control w;
          control = control AND 0xff7fffff;
          w = usleep 1 w
      in ctrl_write 0 control w)"

definition MME1536_StartAuto_m :: "MME1536 \<Rightarrow> world \<Rightarrow> world" where
  "MME1536_StartAuto_m device_instance w =
     (let control = 0x00c00000 OR shl (mme_part device_instance) P_SEL_BITS;
          w = ctrl_write 0 control w;
          control = control AND 0xff7fffff;
          w = usleep 1 w
      in ctrl_write 0 control w)"

text \<open>
  A start pulse: exactly two writes of the control register, the first with the start
  bit (bit 23) set, the second the same word with only that bit cleared.
\<close>

definition start_pulse :: "event list \<Rightarrow> bool" where
  "start_pulse es =
     (case ctrl_writes es of
        [c1, c2] \<Rightarrow> bit c1 23 \<and> c2 = unset_bit 23 c1
      | _ \<Rightarrow> False)"

text \<open>
  The first word a call wrote to the control register, and the fields of a control word:
  pipeline part (bits 31 and 30), destination (29 and 28), operand X (27 and 26),
  operand Y (25 and 24), start (23), auto-run (22).
\<close>

definition start_word :: "event list \<Rightarrow> word32 option" where
  "start_word es = (case ctrl_writes es of [] \<Rightarrow> None | c # cs \<Rightarrow> Some c)"

definition control_fields :: "word32 \<Rightarrow> int \<times> int \<times> int \<times> int \<times> bool \<times> bool" where
  "control_fields c =
     (uint (take_bit 2 (drop_bit P_SEL_BITS c)), uint (take_bit 2 (drop_bit DEST_BITS c)),
      uint (take_bit 2 (drop_bit X_OP_BITS c)), uint (take_bit 2 (drop_bit Y_OP_BITS c)),
      bit c 23, bit c 22)"

section \<open>Operand codec\<close>

text \<open>
  What a C call hands back to its caller: nothing for a \<open>void\<close> function, the value
  for an \<open>int\<close> function.
\<close>

datatype cret = Void | Ret int

fun SetData_loop :: "nat \<Rightarrow> nat \<Rightarrow> nat \<Rightarrow> buffer \<Rightarrow> world \<Rightarrow> world" where
  "SetData_loop 0 word address_offset data w = w"
| "SetData_loop (Suc k) word address_offset data w =
     SetData_loop k (Suc word) (address_offset + ADDR_STEP) data
       (data_write address_offset (data word) w)"

text \<open>The first argument of a loop function counts the iterations still to run.\<close>

definition MME1536_SetData :: "buffer \<Rightarrow> nat \<Rightarrow> nat \<Rightarrow> world \<Rightarrow> world" where
  "MME1536_SetData data start_offset words w = SetData_loop words 0 start_offset data w"

fun GetData_loop :: "nat \<Rightarrow> nat \<Rightarrow> nat \<Rightarrow> buffer \<Rightarrow> world \<Rightarrow> buffer \<times> world" where
  "GetData_loop 0 word address_offset buffer w = (buffer, w)"
| "GetData_loop (Suc k) word address_offset buffer w =
     (let (v, w) = data_read address_offset w
      in GetData_loop k (Suc word) (address_offset + ADDR_STEP) (buffer(word := v)) w)"

definition MME1536_GetData :: "buffer \<Rightarrow> nat \<Rightarrow> int \<Rightarrow> int \<Rightarrow> world \<Rightarrow> buffer \<times> world" where
  "MME1536_GetData buffer offset_start operand words w =
     (let control = 0x00000000;
          control = control OR shl operand DEST_BITS;
          w = ctrl_write 0 control w
      in GetData_loop (nat words) 0 offset_start buffer w)"

text \<open>
  \<open>for(word=0; word<k; word++) zeros[word+shift] = operand_data[word];\<close> on the local
  array \<open>zeros\<close> (48 words, all 0; no index beyond 47 is ever read or written).
\<close>

fun pad_loop :: "nat \<Rightarrow> nat \<Rightarrow> nat \<Rightarrow> buffer \<Rightarrow> buffer \<Rightarrow> buffer" where
  "pad_loop 0 word shift operand_data zeros = zeros"
| "pad_loop (Suc k) word shift operand_data zeros =
     pad_loop k (Suc word) shift operand_data (zeros(word + shift := operand_data word))"

definition set_address_offset :: "int \<Rightarrow> nat option" where
  "set_address_offset operand =
     (if operand = OPERAND_0 then Some OP0_OFFSET
      else if operand = OPERAND_1 then Some OP1_OFFSET
      else if operand = OPERAND_2 then Some OP2_OFFSET
      else if operand = OPERAND_3 then Some OP3_OFFSET
      else if operand = MODULUS then Some M_OFFSET
      else None)"

definition get_address_offset :: "int \<Rightarrow> nat option" where
  "get_address_offset operand =
     (if operand = OPERAND_0 then Some OP0_OFFSET
      else if operand = OPERAND_1 then Some OP1_OFFSET
      else if operand = OPERAND_2 then Some OP2_OFFSET
      else if operand = OPERAND_3 then Some OP3_OFFSET
      else None)"

definition MME1536_SetOperand :: "buffer \<Rightarrow> int \<Rightarrow> int \<Rightarrow> world \<Rightarrow> cret \<times> world" where
  "MME1536_SetOperand operand_data operand len w =
     (let zeros = (\<lambda>_. 0) in
      case set_address_offset operand of
        None \<Rightarrow> (Ret (-1), printf ''[ERROR] MME1536: SetOperand() -> wrong operand (%d)'' [operand] w)
      | Some address_offset \<Rightarrow>
          if len = BITS_LOW then
            (Ret 0, MME1536_SetData (pad_loop WORDS_LOW 0 0 operand_data zeros) address_offset WORDS_TOT w)
          else if len = BITS_HIGH then
            (Ret 0, MME1536_SetData (pad_loop WORDS_HIGH 0 WORDS_LOW operand_data zeros) address_offset WORDS_TOT w)
          else if len = BITS_TOT then
            (Ret 0, MME1536_SetData operand_data address_offset WORDS_TOT w)
          else
            (Ret (-1), printf ''[ERROR] MME1536: SetOperand() -> wrong operand length (%d)'' [len] w))"

definition MME1536_SetOperand_m :: "MME1536 \<Rightarrow> buffer \<Rightarrow> int \<Rightarrow> world \<Rightarrow> cret \<times> world" where
  "MME1536_SetOperand_m device_instance operand_data operand w =
     (let zeros = (\<lambda>_. 0) in
      case set_address_offset operand of
        None \<Rightarrow> (Ret (-1), printf ''[ERROR] MME1536: SetOperand_m() -> wrong operand (%d)'' [operand] w)
      | Some address_offset \<Rightarrow>
          if mme_n device_instance = BITS_LOW then
            (Ret 0, MME1536_SetData (pad_loop WORDS_LOW 0 0 operand_data zeros) address_offset WORDS_TOT w)
          else if mme_n device_instance = BITS_HIGH then
            (Ret 0, MME1536_SetData (pad_loop WORDS_HIGH 0 WORDS_LOW operand_data zeros) address_offset WORDS_TOT w)
          else if mme_n device_instance = BITS_TOT then
            (Ret 0, MME1536_SetData operand_data address_offset WORDS_TOT w)
          else
            (Ret (-1), printf ''[ERROR] MME1536: SetOperand_m() -> wrong operand length (%d)''
                         [mme_n device_instance] w))"

definition MME1536_GetOperand :: "buffer \<Rightarrow> int \<Rightarrow> int \<Rightarrow> world \<Rightarrow> cret \<times> buffer \<times> world" where
  "MME1536_GetOperand operand_data operand len w =
     (case get_address_offset operand of
        None \<Rightarrow> (Ret (-1), operand_data,
                  printf ''[ERROR] MME1536: GetOperand() -> wrong operand (%d)'' [operand] w)
      | Some address_offset \<Rightarrow>
          if len = BITS_LOW then
            (let (buf, w) = MME1536_GetData operand_data address_offset operand (int WORDS_LOW) w
             in (Ret 0, buf, w))
          else if len = BITS_HIGH then
            (let (buf, w) = MME1536_GetData operand_data (address_offset + HIGH_OFFSET) operand
                              (int WORDS_HIGH) w
             in (Ret 0, buf, w))
          else if len = BITS_TOT then
            (let (buf, w) = MME1536_GetData operand_data address_offset operand (int WORDS_TOT) w
             in (Ret 0, buf, w))
          else
            (Ret (-1), operand_data,
             printf ''[ERROR] MME1536: GetOperand() -> wrong operand length (%d)'' [len] w))"

definition MME1536_GetOperand_m :: "MME1536 \<Rightarrow> buffer \<Rightarrow> int \<Rightarrow> world \<Rightarrow> cret \<times> buffer \<times> world" where
  "MME1536_GetOperand_m device_instance operand_data operand w =
     (case get_address_offset operand of
        None \<Rightarrow> (Ret (-1), operand_data,
                  printf ''[ERROR] MME1536: GetOperand_m() -> wrong operand (%d)'' [operand] w)
      | Some address_offset \<Rightarrow>
          (let address_offset =
                 (if mme_n device_instance = BITS_HIGH then address_offset + HIGH_OFFSET
                  else address_offset);
               (buf, w) = MME1536_GetData operand_data address_offset operand
                            (mme_words device_instance) w
           in (Ret 0, buf, w)))"

section \<open>Exponent feed\<close>

text \<open>
  The loop runs \<open>i\<close> from \<open>words-1\<close> down to 0. \<open>0xffff0000\<close> is an \<open>unsigned\<close>
  constant, so the shift right after masking with it is a logical one.
\<close>

fun SetExponent_loop :: "nat \<Rightarrow> buffer \<Rightarrow> buffer option \<Rightarrow> world \<Rightarrow> world" where
  "SetExponent_loop 0 e0 e1 w = w"
| "SetExponent_loop (Suc i) e0 e1 w =
     (let temp = (case e1 of
                    None \<Rightarrow> drop_bit 16 (e0 i AND 0xffff0000)
                  | Some e1 \<Rightarrow> (e1 i AND 0xffff0000) OR drop_bit 16 (e0 i AND 0xffff0000));
          w = data_write FIFO_OFFSET temp w;
          temp = (case e1 of
                    None \<Rightarrow> e0 i AND 0x0000ffff
                  | Some e1 \<Rightarrow> push_bit 16 (e1 i AND 0x0000ffff) OR (e0 i AND 0x0000ffff));
          w = data_write FIFO_OFFSET temp w
      in SetExponent_loop i e0 e1 w)"

text \<open>C's \<open>%\<close> and \<open>/\<close> truncate towards zero: \<open>smod\<close> and \<open>sdiv\<close>.\<close>

definition MME1536_SetExponent :: "buffer \<Rightarrow> buffer option \<Rightarrow> int \<Rightarrow> world \<Rightarrow> cret \<times> world" where
  "MME1536_SetExponent e0 e1 t w =
     (if t smod 32 \<noteq> 0 then
        (Void, printf ''[ERROR] MME1536: SetExponent() -> exponent length %d, is no multiple of 32.'' [t] w)
      else
        (let words = t sdiv 32
         in (Void, SetExponent_loop (nat words) e0 e1 w)))"

section \<open>Interrupt wait\<close>

function wait_loop :: "int \<Rightarrow> int \<Rightarrow> int \<Rightarrow> world \<Rightarrow> (int \<times> world) option" where
  "wait_loop prev timeout ints_passed w =
     (if ints_passed \<le> prev then
        (case uio_read ints_passed w of
           None \<Rightarrow> None
         | Some (ints_passed, w) \<Rightarrow>
             (case gettimeofday w of
                None \<Rightarrow> None
              | Some (time, w) \<Rightarrow>
                  (let current_time = tv_usec time in
                   if current_time \<ge> timeout then
                     Some (ints_passed,
                           printf ''[WARNING] MME1536: WaitUntilReady() -> Timeout!'' [] w)
                   else wait_loop prev timeout ints_passed w)))
      else Some (ints_passed, w))"
  by pat_completeness auto
termination
  by (relation "measure (\<lambda>(prev, timeout, ints_passed, w). length (uio w))")
     (auto simp: uio_read_def gettimeofday_def emit_def split: list.splits)

definition MME1536_WaitUntilReady :: "MME1536 \<Rightarrow> world \<Rightarrow> (MME1536 \<times> world) option" where
  "MME1536_WaitUntilReady device_instance w =
     (let ints_passed = -1 in
      case gettimeofday w of
        None \<Rightarrow> None
      | Some (time, w) \<Rightarrow>
          (let timeout = tv_usec time + TIMEOUT_US in
           case wait_loop (prev_tot_ints device_instance) timeout ints_passed w of
             None \<Rightarrow> None
           | Some (ints_passed, w) \<Rightarrow>
               (let device_instance = device_instance\<lparr>prev_tot_ints := ints_passed\<rparr>;
                    enable = 1
                in Some (device_instance, uio_write enable w))))"

section \<open>The Montgomery constant\<close>

text \<open>
  The three GMP calls of \<open>MME1536_ComputeR2\<close>, after GMP's documentation:
  \<open>mpz_import\<close> and \<open>mpz_export\<close> with order \<open>-1\<close> (least significant word first),
  words of 4 bytes in native byte order and no nail bits; \<open>mpz_export\<close> writes as many
  words as the value needs, none for 0; \<open>mpz_powm_ui\<close> raises a division by zero on a
  zero modulus, which ends the process (\<open>None\<close>).
  \<open>to_unsigned\<close> is the conversion of an \<open>int\<close> to \<open>size_t\<close> or \<open>unsigned long\<close>
  on the 32-bit target.
\<close>

fun mpz_import :: "word32 list \<Rightarrow> nat" where
  "mpz_import [] = 0"
| "mpz_import (x # xs) = unat x + 2 ^ 32 * mpz_import xs"

function mpz_export :: "nat \<Rightarrow> word32 list" where
  "mpz_export v = (if v = 0 then [] else word_of_nat v # mpz_export (v div 2 ^ 32))"
  by pat_completeness auto
termination
  by (relation "measure id") auto

definition mpz_powm_ui :: "nat \<Rightarrow> nat \<Rightarrow> nat \<Rightarrow> nat option" where
  "mpz_powm_ui base exp modulus = (if modulus = 0 then None else Some (base ^ exp mod modulus))"

definition to_unsigned :: "int \<Rightarrow> nat" where
  "to_unsigned x = nat (x mod 2 ^ 32)"

definition store_words :: "word32 list \<Rightarrow> buffer \<Rightarrow> buffer" where
  "store_words ws buf = (\<lambda>i. if i < length ws then ws ! i else buf i)"

definition MME1536_ComputeR2 :: "buffer \<Rightarrow> buffer \<Rightarrow> int \<Rightarrow> buffer option" where
  "MME1536_ComputeR2 R2_buf m n =
     (let m_mpz = mpz_import (map m [0..<to_unsigned n div 32])
      in case mpz_powm_ui 2 (to_unsigned (2 * n)) m_mpz of
           None \<Rightarrow> None
         | Some R2_mpz \<Rightarrow> Some (store_words (mpz_export R2_mpz) R2_buf))"

fun zero_loop :: "nat \<Rightarrow> nat \<Rightarrow> buffer \<Rightarrow> buffer" where
  "zero_loop 0 i r2 = r2"
| "zero_loop (Suc k) i r2 = zero_loop k (Suc i) (r2(i := 0x00000000))"

definition MME1536_UpdateModulus :: "MME1536 \<Rightarrow> buffer \<Rightarrow> int \<Rightarrow> world \<Rightarrow> (MME1536 \<times> world) option" where
  "MME1536_UpdateModulus device_instance m n w =
     (let (device_instance, w) =
            (if n = BITS_LOW then (device_instance\<lparr>mme_part := LOW_PART\<rparr>, w)
             else if n = BITS_HIGH then (device_instance\<lparr>mme_part := HIGH_PART\<rparr>, w)
             else if n = BITS_TOT then (device_instance\<lparr>mme_part := TOT_PIPELINE\<rparr>, w)
             else (device_instance,
                   printf ''[ERROR] MME1536: UpdataModulus() -> wrong modulus length: %d'' [n] w));
          device_instance = device_instance\<lparr>mme_n := n\<rparr>;
          device_instance = device_instance\<lparr>mme_words := n sdiv 32\<rparr>;
          device_instance = device_instance\<lparr>R2 := zero_loop WORDS_TOT 0 (R2 device_instance)\<rparr>
      in case MME1536_ComputeR2 (R2 device_instance) m n of
           None \<Rightarrow> None
         | Some r2 \<Rightarrow>
             (let device_instance = device_instance\<lparr>R2 := r2\<rparr>;
                  w = snd (MME1536_SetOperand m MODULUS n w)
              in Some (device_instance, w)))"

section \<open>Exponentiation with the installed modulus\<close>

definition one :: buffer where
  "one = (\<lambda>i. if i = 0 then 1 else 0)"

definition MME1536_Exp_m ::
  "MME1536 \<Rightarrow> buffer \<Rightarrow> buffer \<Rightarrow> buffer \<Rightarrow> int \<Rightarrow> world \<Rightarrow> (buffer \<times> MME1536 \<times> world) option" where
  "MME1536_Exp_m device_instance result g e t w =
     (let w = snd (MME1536_SetOperand_m device_instance g OPERAND_0 w);
          w = snd (MME1536_SetOperand_m device_instance (R2 device_instance) OPERAND_1 w);
          w = snd (MME1536_SetOperand_m device_instance one OPERAND_2 w);
          w = MME1536_StartSingle_m device_instance OPERAND_0 OPERAND_0 OPERAND_1 w
      in do {
        (device_instance, w) \<leftarrow> MME1536_WaitUntilReady device_instance w;
        (device_instance, w) \<leftarrow> MME1536_WaitUntilReady device_instance
            (MME1536_StartSingle_m device_instance OPERAND_3 OPERAND_2 OPERAND_1 w);
        (device_instance, w) \<leftarrow> MME1536_WaitUntilReady device_instance
            (MME1536_StartAuto_m device_instance (snd (MME1536_SetExponent e None t w)));
        (device_instance, w) \<leftarrow> MME1536_WaitUntilReady device_instance
            (MME1536_StartSingle_m device_instance OPERAND_3 OPERAND_2 OPERAND_3 w);
        (let (ret, result, w) = MME1536_GetOperand_m device_instance result OPERAND_3 w
         in Some (result, device_instance, w))
      })"

section \<open>Opening and closing the session\<close>

text \<open>
  What the operating system answers during \<open>MME1536_Initialize\<close>, and what the process
  holds. \<open>open\<close> gives a descriptor \<open>\<ge> 0\<close> or \<open>-1\<close>; \<open>mmap\<close> gives an address or
  \<open>MAP_FAILED\<close>, which is \<open>-1\<close>; \<open>malloc\<close> gives an address or \<open>NULL\<close>, which is 0.
  A store through a pointer that is not a mapped region ends the process (\<open>Segfault\<close>).
\<close>

record syscalls =
  open_mem :: int
  mmap_data :: int
  open_uio :: int
  mmap_ctrl :: int
  write_uio :: int
  read_uio :: "int option"
  malloc_R2 :: int

record resources =
  fds :: "int list"
  maps :: "int list"
  blocks :: "int list"

datatype outcome = Return int | Segfault

abbreviation ENOSYS :: int where "ENOSYS \<equiv> 38"
abbreviation DEFAULT_UIO_DEV :: string where "DEFAULT_UIO_DEV \<equiv> ''/dev/uio6''"

definition sys_open :: "int \<Rightarrow> resources \<Rightarrow> resources" where
  "sys_open fd r = (if 0 \<le> fd then r\<lparr>fds := fd # fds r\<rparr> else r)"

definition sys_close :: "int \<Rightarrow> resources \<Rightarrow> resources" where
  "sys_close fd r = r\<lparr>fds := remove1 fd (fds r)\<rparr>"

definition sys_mmap :: "int \<Rightarrow> resources \<Rightarrow> resources" where
  "sys_mmap p r = (if p \<noteq> -1 then r\<lparr>maps := p # maps r\<rparr> else r)"

definition sys_munmap :: "int \<Rightarrow> resources \<Rightarrow> resources" where
  "sys_munmap p r = r\<lparr>maps := remove1 p (maps r)\<rparr>"

definition sys_malloc :: "int \<Rightarrow> resources \<Rightarrow> resources" where
  "sys_malloc p r = (if p \<noteq> 0 then r\<lparr>blocks := p # blocks r\<rparr> else r)"

definition sys_free :: "int \<Rightarrow> resources \<Rightarrow> resources" where
  "sys_free p r = r\<lparr>blocks := remove1 p (blocks r)\<rparr>"

definition MME1536_EnableInterrupt :: "world \<Rightarrow> world" where
  "MME1536_EnableInterrupt w =
     (let w = ctrl_write MME1536_INTR_IPIER_OFFSET 0x00000001 w
      in ctrl_write MME1536_INTR_DGIER_OFFSET INTR_GIE_MASK w)"

text \<open>The two exit labels of \<open>MME1536_Initialize\<close>; \<open>failed2\<close> falls through to \<open>failed1\<close>.\<close>

definition failed1 :: "MME1536 \<Rightarrow> resources \<Rightarrow> world \<Rightarrow> outcome \<times> MME1536 \<times> resources \<times> world" where
  "failed1 device_instance r w =
     (Return (-1), device_instance, sys_close (ctrl_fd device_instance) r, w)"

definition failed2 :: "MME1536 \<Rightarrow> resources \<Rightarrow> world \<Rightarrow> outcome \<times> MME1536 \<times> resources \<times> world" where
  "failed2 device_instance r w =
     failed1 device_instance (sys_munmap (ctrl_ptr device_instance) r) w"

definition MME1536_Initialize ::
  "MME1536 \<Rightarrow> string option \<Rightarrow> syscalls \<Rightarrow> resources \<Rightarrow> world
     \<Rightarrow> outcome \<times> MME1536 \<times> resources \<times> world" where
  "MME1536_Initialize device_instance uio_dev_arg sys r w =
     (let device_instance = device_instance\<lparr>data_fd := open_mem sys\<rparr>;
          r = sys_open (open_mem sys) r
      in
      if data_fd device_instance < 1 then
        (Return (-1), device_instance, r,
         printf ''[ERROR] MME1536: Initialize() -> could not open /dev/mem'' [] w)
      else
      let device_instance = device_instance\<lparr>data_ptr := mmap_data sys\<rparr>;
          r = sys_mmap (mmap_data sys) r
      in
      if data_ptr device_instance = -1 then
        (Return (-1), device_instance, r,
         printf ''[ERROR] MME1536: Initialize() -> could not map data_ptr'' [] w)
      else
      let (device_instance, w) =
            (case uio_dev_arg of
               None \<Rightarrow> (device_instance\<lparr>uio_dev := DEFAULT_UIO_DEV\<rparr>,
                         printf ''[INFO] MME1536: Initialize() -> taking default UIO device %s'' [] w)
             | Some dev \<Rightarrow> (device_instance\<lparr>uio_dev := dev\<rparr>, w));
          device_instance = device_instance\<lparr>ctrl_fd := open_uio sys\<rparr>;
          r = sys_open (open_uio sys) r
      in
      if ctrl_fd device_instance < 1 then
        (Return (-1), device_instance, r,
         printf ''[ERROR] MME1536: Initialize() -> failed to open UIO device '' [] w)
      else
      let device_instance = device_instance\<lparr>ctrl_ptr := mmap_ctrl sys\<rparr>;
          r = sys_mmap (mmap_ctrl sys) r
      in
      if ctrl_ptr device_instance = 0 then
        failed1 device_instance r
          (printf ''[ERROR] MME1536: Initialize() -> failed to mmap the UIO device.'' [] w)
      else if ctrl_ptr device_instance \<notin> set (maps r) then
        (Segfault, device_instance, r, w)
      else
      let w = MME1536_EnableInterrupt w;
          enable = 1;
          w = uio_write enable w
      in
      if write_uio sys = ENOSYS then
        failed2 device_instance r
          (printf ''[ERROR] MME1536: Initialize() -> no interrupt for this device!'' [] w)
      else
      let ints = 0;
          ints = (case read_uio sys of None \<Rightarrow> ints | Some v \<Rightarrow> v);
          w = emit UioRead w;
          device_instance = device_instance\<lparr>prev_tot_ints := ints\<rparr>;
          device_instance = device_instance\<lparr>R2_ptr := malloc_R2 sys\<rparr>;
          r = sys_malloc (malloc_R2 sys) r
      in
      if R2_ptr device_instance = 0 then
        failed2 device_instance r
          (printf ''[ERROR] MME1536: Initialize() -> could not allocate memory for R2.'' [] w)
      else (Return 0, device_instance, r, w))"

definition MME1536_Clean :: "MME1536 \<Rightarrow> resources \<Rightarrow> resources" where
  "MME1536_Clean device_instance r =
     (let r = sys_free (R2_ptr device_instance) r;
          r = sys_munmap (ctrl_ptr device_instance) r;
          r = sys_close (ctrl_fd device_instance) r;
          r = sys_munmap (data_ptr device_instance) r
      in sys_close (data_fd device_instance) r)"

section \<open>Vocabulary of the properties\<close>

subsection \<open>Reads of an operand\<close>

definition is_data_read :: "event \<Rightarrow> bool" where
  "is_data_read e = (case e of DataRead a \<Rightarrow> True | _ \<Rightarrow> False)"

text \<open>
  What a call added to the log is one write of the whole control register followed by
  reads of the data region only; the word written carries \<open>operand\<close> in the destination
  field (bits 28 and 29) and zero everywhere else, and the register still holds it.
\<close>

definition select_then_read :: "int \<Rightarrow> world \<Rightarrow> world \<Rightarrow> bool" where
  "select_then_read operand w w' =
     (case new_events w w' of
        CtrlWrite off c # es \<Rightarrow>
          off = 0 \<and> take_bit 2 (drop_bit DEST_BITS c) = word_of_int operand
          \<and> c AND NOT (push_bit DEST_BITS 3) = 0
          \<and> list_all is_data_read es \<and> ctrl_mem w' 0 = c
      | _ \<Rightarrow> False)"

subsection \<open>Errors\<close>

definition is_error_code :: "cret \<Rightarrow> bool" where
  "is_error_code r = (case r of Void \<Rightarrow> False | Ret c \<Rightarrow> c \<noteq> 0)"

definition is_report :: "event \<Rightarrow> bool" where
  "is_report e = (case e of Printf fmt args \<Rightarrow> True | _ \<Rightarrow> False)"

text \<open>The call printed something, did nothing else, and the data region is as it was.\<close>

definition reported_only :: "world \<Rightarrow> world \<Rightarrow> bool" where
  "reported_only w w' =
     (new_events w w' \<noteq> [] \<and> list_all is_report (new_events w w') \<and> data_mem w' = data_mem w)"

subsection \<open>Half-words\<close>

definition upper_half :: "word32 \<Rightarrow> 16 word" where
  "upper_half x = ucast (drop_bit 16 x)"

definition lower_half :: "word32 \<Rightarrow> 16 word" where
  "lower_half x = ucast x"

definition packed :: "16 word \<Rightarrow> 16 word \<Rightarrow> word32" where
  "packed hi lo = word_cat hi lo"

definition right_justified :: "16 word \<Rightarrow> word32" where
  "right_justified h = ucast h"

definition left_justified :: "16 word \<Rightarrow> word32" where
  "left_justified h = push_bit 16 (ucast h)"

text \<open>The two entries streamed for word \<open>i\<close> of the exponents.\<close>

definition fifo_entries :: "buffer \<Rightarrow> buffer option \<Rightarrow> nat \<Rightarrow> word32 list" where
  "fifo_entries e0 e1 i =
     (case e1 of
        None \<Rightarrow> [right_justified (upper_half (e0 i)), right_justified (lower_half (e0 i))]
      | Some e1 \<Rightarrow> [packed (upper_half (e1 i)) (upper_half (e0 i)),
                    packed (lower_half (e1 i)) (lower_half (e0 i))])"

subsection \<open>What a wait consumed\<close>

abbreviation TIMEOUT_WARNING :: event where
  "TIMEOUT_WARNING \<equiv> Printf ''[WARNING] MME1536: WaitUntilReady() -> Timeout!'' []"

text \<open>The content of the read buffer after a sequence of reads, from its content before.\<close>

fun last_read :: "int \<Rightarrow> int option list \<Rightarrow> int" where
  "last_read buf [] = buf"
| "last_read buf (None # rs) = last_read buf rs"
| "last_read buf (Some v # rs) = last_read v rs"

definition reads_during :: "world \<Rightarrow> world \<Rightarrow> int option list" where
  "reads_during w w' = take (length (uio w) - length (uio w')) (uio w)"

definition times_during :: "world \<Rightarrow> world \<Rightarrow> timeval list" where
  "times_during w w' = take (length (clock w) - length (clock w')) (clock w)"



text \<open>Each return of \<open>MME1536_WaitUntilReady\<close> re-arms the interrupt once, and nothing else does.\<close>

definition waits :: "event list \<Rightarrow> nat" where
  "waits es = count_list es (UioWrite 1)"

subsection \<open>Concrete sessions, buffers and worlds\<close>

definition world0 :: world where
  "world0 = \<lparr>ctrl_mem = (\<lambda>_. 0), data_mem = (\<lambda>_. 0), trace = [], clock = [], uio = []\<rparr>"

definition dev_example :: MME1536 where
  "dev_example = \<lparr>data_fd = 3, ctrl_fd = 4, ctrl_ptr = 0x40001000, data_ptr = 0x40002000,
     uio_dev = ''/dev/uio6'', prev_tot_ints = 5, R2_ptr = 0x10000, R2 = (\<lambda>_. 0),
     mme_n = 512, mme_words = 16, mme_part = 1\<rparr>"

definition exp_example :: buffer where
  "exp_example = (\<lambda>i. if i = 0 then 0x12345678 else 0)"

definition at_usec :: "int \<Rightarrow> timeval" where
  "at_usec us = \<lparr>tv_sec = 0, tv_usec = us\<rparr>"

text \<open>No interrupt arrives and every read fails, until the deadline.\<close>

definition world_silent :: world where
  "world_silent = world0\<lparr>clock := [at_usec 0, at_usec 140000], uio := [None]\<rparr>"

definition world_silent_after :: world where
  "world_silent_after =
     world0\<lparr>trace := [Gettimeofday, UioRead, Gettimeofday, TIMEOUT_WARNING, UioWrite 1]\<rparr>"



text \<open>The sixth interrupt arrives at once.\<close>

definition world_ready :: world where
  "world_ready = world0\<lparr>clock := [at_usec 0, at_usec 10], uio := [Some 6]\<rparr>"

definition world_ready_after :: world where
  "world_ready_after = world0\<lparr>trace := [Gettimeofday, UioRead, Gettimeofday, UioWrite 1]\<rparr>"



text \<open>Eight clock readings and four interrupts, one for each wait.\<close>

definition world_four :: world where
  "world_four = world0\<lparr>clock := [at_usec 0, at_usec 10, at_usec 20, at_usec 30, at_usec 40,
                                   at_usec 50, at_usec 60, at_usec 70],
                         uio := [Some 6, Some 7, Some 8, Some 9]\<rparr>"

definition modulus_example :: buffer where
  "modulus_example = (\<lambda>i. if i = 0 then 3 else 0)"

text \<open>The UIO device cannot be opened; and: everything succeeds but the allocation.\<close>

definition sys_no_uio :: syscalls where
  "sys_no_uio = \<lparr>open_mem = 3, mmap_data = 0x40002000, open_uio = -1, mmap_ctrl = -1,
                  write_uio = -1, read_uio = None, malloc_R2 = 0\<rparr>"

definition sys_no_memory :: syscalls where
  "sys_no_memory = \<lparr>open_mem = 3, mmap_data = 0x40002000, open_uio = 4, mmap_ctrl = 0x40001000,
                  write_uio = 4, read_uio = Some 5, malloc_R2 = 0\<rparr>"

definition no_resources :: resources where
  "no_resources = \<lparr>fds = [], maps = [], blocks = []\<rparr>"

subsection \<open>Counting waits along a run\<close>

definition adds_waits :: "nat \<Rightarrow> world \<Rightarrow> world \<Rightarrow> bool" where
  "adds_waits k w w' = (\<exists>es. trace w' = trace w @ es \<and> waits es = k)"

text \<open>
  What is left of a log when only the accesses to the hardware and the re-arming of the
  interrupt are kept: a word stored to an operand or modulus slot, a word pushed to the
  streaming port, a word read from the data region, a write of the control register with
  its start and auto-run bits, and the re-arming that ends a wait.
\<close>

datatype milestone = Loaded | Fed | ReadBack | Control bool bool | Waited

fun milestones :: "event list \<Rightarrow> milestone list" where
  "milestones [] = []"
| "milestones (CtrlWrite off c # es) =
     (if off = 0 then Control (bit c 23) (bit c 22) # milestones es else milestones es)"
| "milestones (DataWrite off v # es) =
     (if off = FIFO_OFFSET then Fed else Loaded) # milestones es"
| "milestones (DataRead off # es) = ReadBack # milestones es"
| "milestones (UioWrite v # es) = (if v = 1 then Waited # milestones es else milestones es)"
| "milestones (e # es) = milestones es"

text \<open>
  The course of an exponentiation: the operands are loaded; a single step is started
  (start bit set, then cleared) and waited for, twice; the exponent is fed; the auto-run
  is started and waited for; the single step of the post-computation is started and waited
  for; the result slot is selected and read.
\<close>

definition exp_skeleton :: "nat \<Rightarrow> nat \<Rightarrow> nat \<Rightarrow> milestone list" where
  "exp_skeleton loads feeds reads =
     replicate loads Loaded
     @ [Control True False, Control False False, Waited,
        Control True False, Control False False, Waited]
     @ replicate feeds Fed
     @ [Control True True, Control False True, Waited,
        Control True False, Control False False, Waited,
        Control False False]
     @ replicate reads ReadBack"

definition adds_milestones :: "milestone list \<Rightarrow> world \<Rightarrow> world \<Rightarrow> bool" where
  "adds_milestones ms w w' = (\<exists>es. trace w' = trace w @ es \<and> milestones es = ms)"

section \<open>Facts about the log and the loops\<close>

lemma new_events_append: "trace w' = trace w @ es \<Longrightarrow> new_events w w' = es"
  by (simp add: new_events_def)

subsection \<open>Start pulses\<close>

lemma start_mask: "(0xff7fffff::word32) = NOT (push_bit 23 1)"
  by simp

lemma clear_start: "(c::word32) AND 0xff7fffff = unset_bit 23 c"
  by (simp only: start_mask unset_bit_eq_and_not)

lemma StartSingle_pulse:
  "start_pulse (new_events w (MME1536_StartSingle p_sel destination x_op y_op w))"
  by (simp add: MME1536_StartSingle_def start_pulse_def new_events_def ctrl_write_def
        ctrl_read_def usleep_def emit_def Let_def clear_start bit_simps)

lemma StartSingle_m_pulse:
  "start_pulse (new_events w (MME1536_StartSingle_m dev destination x_op y_op w))"
  by (simp add: MME1536_StartSingle_m_def start_pulse_def new_events_def ctrl_write_def
        ctrl_read_def usleep_def emit_def Let_def clear_start bit_simps)

lemma StartAuto_pulse: "start_pulse (new_events w (MME1536_StartAuto p_sel w))"
  by (simp add: MME1536_StartAuto_def start_pulse_def new_events_def ctrl_write_def
        usleep_def emit_def Let_def clear_start bit_simps)

lemma StartAuto_m_pulse: "start_pulse (new_events w (MME1536_StartAuto_m dev w))"
  by (simp add: MME1536_StartAuto_m_def start_pulse_def new_events_def ctrl_write_def
        usleep_def emit_def Let_def clear_start bit_simps)

lemma keep_mask: "(0x003fffff::word32) = mask 22"
  by (simp add: mask_eq_exp_minus_1)

lemma start_bit: "(0x00800000::word32) = push_bit 23 1"
  by simp

lemma both_bits: "(0x00c00000::word32) = push_bit 22 3"
  by simp

lemma small_field:
  "d \<in> {0, 1, 2, 3} \<Longrightarrow> (word_of_int d :: word32) = take_bit 2 (word_of_int d)"
  by auto

lemma uint_small_field: "d \<in> {0, 1, 2, 3} \<Longrightarrow> uint (word_of_int d :: word32) = d"
  by auto

lemma bit_shl:
  assumes "d \<in> {0, 1, 2, 3}"
  shows "bit (shl d k) n \<longleftrightarrow> k \<le> n \<and> n < k + 2 \<and> n < 32 \<and> bit (word_of_int d :: word32) (n - k)"
  unfolding shl_def
  by (subst small_field [OF assms]) (auto simp: bit_simps)

lemma bit_start_iff: "bit (0x00800000::word32) n \<longleftrightarrow> n = 23"
  apply (subst start_bit)
  apply (simp only: bit_push_bit_iff)
  apply (auto simp: bit_1_iff possible_bit_word)
  done

lemma bit_keep_iff: "bit (0x003fffff::word32) n \<longleftrightarrow> n < 22"
  apply (subst keep_mask)
  apply (simp only: bit_mask_iff)
  apply (auto simp: possible_bit_word)
  done

lemma take_small: "d \<in> {0, 1, 2, 3} \<Longrightarrow> uint (take_bit 2 (word_of_int d :: word32)) = d"
  by auto

lemma field_eq:
  assumes "\<And>i. i < 2 \<Longrightarrow> bit (w::word32) (k + i) = bit (v::word32) i"
  shows "take_bit 2 (drop_bit k w) = take_bit 2 v"
  by (rule bit_word_eqI) (auto simp: bit_take_bit_iff bit_drop_bit_eq assms)

lemma single_fields:
  assumes "p \<in> {0, 1, 2, 3}" "d \<in> {0, 1, 2, 3}" "x \<in> {0, 1, 2, 3}" "y \<in> {0, 1, 2, 3}"
  shows "control_fields ((c AND 0x003fffff) OR (shl p P_SEL_BITS OR shl d DEST_BITS
            OR shl x X_OP_BITS OR shl y Y_OP_BITS OR 0x00800000)) = (p, d, x, y, True, False)"
proof -
  define w where "w = (c AND 0x003fffff) OR (shl p P_SEL_BITS OR shl d DEST_BITS
            OR shl x X_OP_BITS OR shl y Y_OP_BITS OR 0x00800000)"
  note bs = bit_or_iff bit_and_iff bit_start_iff bit_keep_iff bit_shl [OF assms(1)]
        bit_shl [OF assms(2)] bit_shl [OF assms(3)] bit_shl [OF assms(4)]
  have "take_bit 2 (drop_bit 30 w) = take_bit 2 (word_of_int p)"
    unfolding w_def by (rule field_eq) (simp add: bs del: bit_numeral_word_iff)
  moreover have "take_bit 2 (drop_bit 28 w) = take_bit 2 (word_of_int d)"
    unfolding w_def by (rule field_eq) (simp add: bs del: bit_numeral_word_iff)
  moreover have "take_bit 2 (drop_bit 26 w) = take_bit 2 (word_of_int x)"
    unfolding w_def by (rule field_eq) (simp add: bs del: bit_numeral_word_iff)
  moreover have "take_bit 2 (drop_bit 24 w) = take_bit 2 (word_of_int y)"
    unfolding w_def by (rule field_eq) (simp add: bs del: bit_numeral_word_iff)
  moreover have "bit w 23"
    unfolding w_def by (simp add: bs del: bit_numeral_word_iff)
  moreover have "\<not> bit w 22"
    unfolding w_def by (simp add: bs del: bit_numeral_word_iff)
  ultimately show ?thesis
    using assms unfolding w_def [symmetric] control_fields_def by (simp only: take_small)
qed

lemma bit_both_iff: "bit (0x00c00000::word32) n \<longleftrightarrow> n = 22 \<or> n = 23"
proof -
  have "(0x00c00000::word32) = push_bit 22 1 OR push_bit 23 1"
    by simp
  then show ?thesis
    by (simp only: bit_or_iff bit_push_bit_iff) (auto simp: bit_1_iff possible_bit_word)
qed

lemma auto_fields:
  assumes "p \<in> {0, 1, 2, 3}"
  shows "control_fields (0x00c00000 OR shl p P_SEL_BITS) = (p, 0, 0, 0, True, True)"
proof -
  define w where "w = 0x00c00000 OR shl p P_SEL_BITS"
  note bs = bit_or_iff bit_both_iff bit_shl [OF assms]
  have "take_bit 2 (drop_bit 30 w) = take_bit 2 (word_of_int p)"
    unfolding w_def by (rule field_eq) (simp add: bs del: bit_numeral_word_iff)
  moreover have "take_bit 2 (drop_bit 28 w) = take_bit 2 (word_of_int 0)"
    unfolding w_def by (rule field_eq) (simp add: bs del: bit_numeral_word_iff)
  moreover have "take_bit 2 (drop_bit 26 w) = take_bit 2 (word_of_int 0)"
    unfolding w_def by (rule field_eq) (simp add: bs del: bit_numeral_word_iff)
  moreover have "take_bit 2 (drop_bit 24 w) = take_bit 2 (word_of_int 0)"
    unfolding w_def by (rule field_eq) (simp add: bs del: bit_numeral_word_iff)
  moreover have "bit w 23" "bit w 22"
    unfolding w_def by (simp_all add: bs del: bit_numeral_word_iff)
  ultimately show ?thesis
    using assms unfolding w_def [symmetric] control_fields_def by (simp add: take_small)
qed

lemma StartSingle_word:
  assumes "p \<in> {0, 1, 2, 3}" "d \<in> {0, 1, 2, 3}" "x \<in> {0, 1, 2, 3}" "y \<in> {0, 1, 2, 3}"
  shows "map_option control_fields (start_word (new_events w (MME1536_StartSingle p d x y w)))
           = Some (p, d, x, y, True, False)"
  using single_fields [OF assms, of "ctrl_mem w 0"]
  by (simp add: MME1536_StartSingle_def start_word_def new_events_def ctrl_write_def
        ctrl_read_def usleep_def emit_def Let_def)

lemma StartSingle_m_word:
  assumes "mme_part dev \<in> {0, 1, 2, 3}" "d \<in> {0, 1, 2, 3}" "x \<in> {0, 1, 2, 3}" "y \<in> {0, 1, 2, 3}"
  shows "map_option control_fields (start_word (new_events w (MME1536_StartSingle_m dev d x y w)))
           = Some (mme_part dev, d, x, y, True, False)"
  using single_fields [OF assms, of "ctrl_mem w 0"]
  by (simp add: MME1536_StartSingle_m_def start_word_def new_events_def ctrl_write_def
        ctrl_read_def usleep_def emit_def Let_def)

lemma StartAuto_word:
  assumes "p \<in> {0, 1, 2, 3}"
  shows "map_option control_fields (start_word (new_events w (MME1536_StartAuto p w)))
           = Some (p, 0, 0, 0, True, True)"
  using auto_fields [OF assms]
  by (simp add: MME1536_StartAuto_def start_word_def new_events_def ctrl_write_def
        usleep_def emit_def Let_def)

lemma StartAuto_m_word:
  assumes "mme_part dev \<in> {0, 1, 2, 3}"
  shows "map_option control_fields (start_word (new_events w (MME1536_StartAuto_m dev w)))
           = Some (mme_part dev, 0, 0, 0, True, True)"
  using auto_fields [OF assms]
  by (simp add: MME1536_StartAuto_m_def start_word_def new_events_def ctrl_write_def
        usleep_def emit_def Let_def)

text \<open>
  C6. A single-step start and an auto-run start, with explicit pipeline part or with the
  session's, each write the control register exactly twice: first a word with the start
  bit (bit 23) set, then the same word with only that bit cleared. With two-bit selectors,
  the first word carries them in its pipeline-part, destination, operand-X and operand-Y
  fields, with the auto-run bit cleared for a single step and set for an auto-run.
\<close>

theorem start_is_pulse:
  "start_pulse (new_events w (MME1536_StartSingle p_sel destination x_op y_op w))
   \<and> start_pulse (new_events w (MME1536_StartSingle_m dev destination x_op y_op w))
   \<and> start_pulse (new_events w (MME1536_StartAuto p_sel w))
   \<and> start_pulse (new_events w (MME1536_StartAuto_m dev w))
   \<and> (p_sel \<in> {0, 1, 2, 3} \<and> destination \<in> {0, 1, 2, 3} \<and> x_op \<in> {0, 1, 2, 3} \<and> y_op \<in> {0, 1, 2, 3} \<longrightarrow>
        map_option control_fields
          (start_word (new_events w (MME1536_StartSingle p_sel destination x_op y_op w)))
          = Some (p_sel, destination, x_op, y_op, True, False))
   \<and> (mme_part dev \<in> {0, 1, 2, 3} \<and> destination \<in> {0, 1, 2, 3} \<and> x_op \<in> {0, 1, 2, 3} \<and> y_op \<in> {0, 1, 2, 3} \<longrightarrow>
        map_option control_fields
          (start_word (new_events w (MME1536_StartSingle_m dev destination x_op y_op w)))
          = Some (mme_part dev, destination, x_op, y_op, True, False))
   \<and> (p_sel \<in> {0, 1, 2, 3} \<longrightarrow>
        map_option control_fields (start_word (new_events w (MME1536_StartAuto p_sel w)))
          = Some (p_sel, 0, 0, 0, True, True))
   \<and> (mme_part dev \<in> {0, 1, 2, 3} \<longrightarrow>
        map_option control_fields (start_word (new_events w (MME1536_StartAuto_m dev w)))
          = Some (mme_part dev, 0, 0, 0, True, True))"
  by (simp add: StartSingle_pulse StartSingle_m_pulse StartAuto_pulse StartAuto_m_pulse
        StartSingle_word StartSingle_m_word StartAuto_word StartAuto_m_word)

theorem start_is_pulse_witness:
  "TOT_PIPELINE \<in> {0, 1, 2, 3} \<and> OPERAND_3 \<in> {0, 1, 2, 3} \<and> OPERAND_2 \<in> {0, 1, 2, 3}
   \<and> mme_part dev_example \<in> {0, 1, 2, 3}
   \<and> start_pulse (new_events world0 (MME1536_StartSingle TOT_PIPELINE OPERAND_3 OPERAND_2 OPERAND_3 world0))
   \<and> map_option control_fields
        (start_word (new_events world0 (MME1536_StartSingle TOT_PIPELINE OPERAND_3 OPERAND_2 OPERAND_3 world0)))
        = Some (3, 3, 2, 3, True, False)
   \<and> map_option control_fields
        (start_word (new_events world0 (MME1536_StartSingle_m dev_example OPERAND_3 OPERAND_2 OPERAND_3 world0)))
        = Some (1, 3, 2, 3, True, False)
   \<and> map_option control_fields (start_word (new_events world0 (MME1536_StartAuto TOT_PIPELINE world0)))
        = Some (3, 0, 0, 0, True, True)
   \<and> map_option control_fields (start_word (new_events world0 (MME1536_StartAuto_m dev_example world0)))
        = Some (1, 0, 0, 0, True, True)"
proof -
  have h: "mme_part dev_example \<in> {0, 1, 2, 3}" "mme_part dev_example = 1"
    by (simp_all add: dev_example_def)
  show ?thesis
    using h start_is_pulse [of world0 TOT_PIPELINE OPERAND_3 OPERAND_2 OPERAND_3 dev_example]
    by simp
qed

subsection \<open>Transfers\<close>

lemma SetData_loop_trace:
  "trace (SetData_loop k word a data w) =
     trace w @ map (\<lambda>i. DataWrite (a + 4 * i) (data (word + i))) [0..<k]"
proof (induction k arbitrary: word a w)
  case 0
  then show ?case by simp
next
  case (Suc k)
  have "map (\<lambda>i. DataWrite (a + 4 * i) (data (word + i))) [0..<Suc k] =
        DataWrite a (data word) # map (\<lambda>i. DataWrite (a + 4 + 4 * i) (data (Suc word + i))) [0..<k]"
    by (simp add: upt_conv_Cons map_Suc_upt [symmetric] del: upt_Suc)
  then show ?case
    by (simp add: Suc.IH data_write_def emit_def del: upt_Suc)
qed

lemma SetData_loop_mem_out:
  "(\<forall>i<k. x \<noteq> a + 4 * i) \<Longrightarrow> data_mem (SetData_loop k word a data w) x = data_mem w x"
proof (induction k arbitrary: word a w)
  case 0
  then show ?case by simp
next
  case (Suc k)
  have "\<forall>i<k. x \<noteq> a + 4 + 4 * i"
    using Suc.prems by (metis Suc_less_eq add.assoc mult_Suc_right)
  moreover have "x \<noteq> a"
    using Suc.prems by (metis add.right_neutral mult_0_right zero_less_Suc)
  ultimately show ?case
    by (simp add: Suc.IH data_write_def emit_def)
qed

lemma SetData_loop_mem_in:
  "i < k \<Longrightarrow> data_mem (SetData_loop k word a data w) (a + 4 * i) = data (word + i)"
proof (induction k arbitrary: word a w i)
  case 0
  then show ?case by simp
next
  case (Suc k)
  show ?case
  proof (cases i)
    case 0
    then show ?thesis
      by (simp add: SetData_loop_mem_out data_write_def emit_def)
  next
    case (Suc j)
    with Suc.prems have "j < k" by simp
    from Suc.IH [OF this, of "Suc word" "a + 4"] Suc show ?thesis
      by (simp add: add.assoc)
  qed
qed

lemma SetData_loop_frame:
  "ctrl_mem (SetData_loop k word a data w) = ctrl_mem w"
  "clock (SetData_loop k word a data w) = clock w"
  "uio (SetData_loop k word a data w) = uio w"
  by (induction k arbitrary: word a w; simp add: data_write_def emit_def)+

lemma GetData_loop_eq:
  "GetData_loop k word a buf w =
     (\<lambda>j. if word \<le> j \<and> j < word + k then data_mem w (a + 4 * (j - word)) else buf j,
      w\<lparr>trace := trace w @ map (\<lambda>i. DataRead (a + 4 * i)) [0..<k]\<rparr>)"
proof (induction k arbitrary: word a buf w)
  case 0
  then show ?case by (auto simp: fun_eq_iff)
next
  case (Suc k)
  have m: "map (\<lambda>i. DataRead (a + 4 * i)) [0..<Suc k] =
        DataRead a # map (\<lambda>i. DataRead (a + 4 + 4 * i)) [0..<k]"
    by (simp add: upt_conv_Cons map_Suc_upt [symmetric] del: upt_Suc)
  have idx: "\<And>j. Suc word \<le> j \<Longrightarrow> a + 4 + 4 * (j - Suc word) = a + 4 * (j - word)"
    by arith
  have f: "(\<lambda>j. if Suc word \<le> j \<and> j < Suc word + k
                 then data_mem w (a + 4 + 4 * (j - Suc word))
                 else (buf(word := data_mem w a)) j) =
           (\<lambda>j. if word \<le> j \<and> j < word + Suc k then data_mem w (a + 4 * (j - word)) else buf j)"
  proof
    fix j
    consider "j < word" | "j = word" | "Suc word \<le> j" by linarith
    then show "(if Suc word \<le> j \<and> j < Suc word + k
                 then data_mem w (a + 4 + 4 * (j - Suc word))
                 else (buf(word := data_mem w a)) j) =
           (if word \<le> j \<and> j < word + Suc k then data_mem w (a + 4 * (j - word)) else buf j)"
    proof cases
      case 1 then show ?thesis by simp
    next
      case 2 then show ?thesis by simp
    next
      case 3 then show ?thesis using idx [OF 3] by (simp add: add.assoc)
    qed
  qed
  show ?case
    using f by (simp add: Suc.IH data_read_def emit_def m del: upt_Suc cong: if_cong)
qed

lemma pad_loop_eq:
  "pad_loop k word shift od z =
     (\<lambda>j. if word + shift \<le> j \<and> j < word + shift + k then od (j - shift) else z j)"
  by (induction k arbitrary: word z) (auto simp: fun_eq_iff)

lemma get_offset_cases:
  "operand \<in> {OPERAND_0, OPERAND_1, OPERAND_2, OPERAND_3} \<Longrightarrow>
     \<exists>a. get_address_offset operand = Some a \<and> set_address_offset operand = Some a \<and> a \<in> {OP0_OFFSET, OP1_OFFSET, OP2_OFFSET, OP3_OFFSET}"
  by (auto simp: get_address_offset_def set_address_offset_def)

lemma SetData_mem_in: "i < k \<Longrightarrow> data_mem (MME1536_SetData data a k w) (a + 4 * i) = data i"
  by (simp add: MME1536_SetData_def SetData_loop_mem_in)

lemma GetData_buf: "i < nat k \<Longrightarrow> fst (MME1536_GetData buf a operand k w) i = data_mem w (a + 4 * i)"
  by (simp add: MME1536_GetData_def GetData_loop_eq ctrl_write_def emit_def Let_def)


lemma GetOperand_buf:
  assumes "get_address_offset operand = Some a" and "len \<in> {BITS_LOW, BITS_HIGH, BITS_TOT}"
      and "i < nat (len div 32)"
  shows "fst (snd (MME1536_GetOperand buf operand len w)) i =
           data_mem w (a + (if len = BITS_HIGH then 64 else 0) + 4 * i)"
  using assms by (auto simp: MME1536_GetOperand_def GetData_buf split: prod.splits)

lemma SetOperand_mem:
  assumes "set_address_offset operand = Some a" and "len \<in> {BITS_LOW, BITS_HIGH, BITS_TOT}"
      and "i < 48"
  shows "data_mem (snd (MME1536_SetOperand data operand len w)) (a + 4 * i) =
           (if len = BITS_LOW then (if i < 16 then data i else 0)
            else if len = BITS_HIGH then (if 16 \<le> i then data (i - 16) else 0)
            else data i)"
  using assms by (auto simp: MME1536_SetOperand_def SetData_mem_in pad_loop_eq)

lemma dest_word:
  "operand \<in> {OPERAND_0, OPERAND_1, OPERAND_2, OPERAND_3} \<Longrightarrow>
     take_bit 2 (drop_bit 28 (shl operand 28)) = word_of_int operand \<and>
     shl operand 28 AND NOT (push_bit 28 3) = 0"
  by (auto simp: shl_def)

lemma GetData_select:
  assumes "operand \<in> {OPERAND_0, OPERAND_1, OPERAND_2, OPERAND_3}"
  shows "select_then_read operand w (snd (MME1536_GetData buf a operand k w))"
  using dest_word [OF assms]
  by (simp add: select_then_read_def MME1536_GetData_def GetData_loop_eq ctrl_write_def emit_def
        new_events_def list_all_iff is_data_read_def image_iff Let_def)

text \<open>
  C10. A read of a working operand slot (\<open>MME1536_GetOperand\<close> at a supported width,
  \<open>MME1536_GetOperand_m\<close> at any) first writes the whole control register with a word
  that holds the slot in the destination field and zero in every other field, and then
  only reads the data region. For any other slot identifier or width no read takes
  place: the call returns \<open>-1\<close> and only prints a report.
\<close>

theorem operand_read_overwrites_control:
  "(operand \<in> {OPERAND_0, OPERAND_1, OPERAND_2, OPERAND_3} \<and> len \<in> {BITS_LOW, BITS_HIGH, BITS_TOT} \<longrightarrow>
      select_then_read operand w (snd (snd (MME1536_GetOperand buf operand len w))))
   \<and> (operand \<in> {OPERAND_0, OPERAND_1, OPERAND_2, OPERAND_3} \<longrightarrow>
      select_then_read operand w (snd (snd (MME1536_GetOperand_m dev buf operand w))))
   \<and> (operand \<notin> {OPERAND_0, OPERAND_1, OPERAND_2, OPERAND_3} \<or> len \<notin> {BITS_LOW, BITS_HIGH, BITS_TOT} \<longrightarrow>
      fst (MME1536_GetOperand buf operand len w) = Ret (-1)
      \<and> reported_only w (snd (snd (MME1536_GetOperand buf operand len w))))
   \<and> (operand \<notin> {OPERAND_0, OPERAND_1, OPERAND_2, OPERAND_3} \<longrightarrow>
      fst (MME1536_GetOperand_m dev buf operand w) = Ret (-1)
      \<and> reported_only w (snd (snd (MME1536_GetOperand_m dev buf operand w))))"
proof -
  have "select_then_read operand w (snd (snd (MME1536_GetOperand buf operand len w)))"
    if op: "operand \<in> {OPERAND_0, OPERAND_1, OPERAND_2, OPERAND_3}"
      and "len \<in> {BITS_LOW, BITS_HIGH, BITS_TOT}"
  proof -
    from get_offset_cases [OF op] obtain a where "get_address_offset operand = Some a"
      by blast
    with that(2) GetData_select [OF op] show ?thesis
      by (auto simp: MME1536_GetOperand_def split: prod.splits dest: arg_cong [where f = snd])
  qed
  moreover have "select_then_read operand w (snd (snd (MME1536_GetOperand_m dev buf operand w)))"
    if op: "operand \<in> {OPERAND_0, OPERAND_1, OPERAND_2, OPERAND_3}"
  proof -
    from get_offset_cases [OF op] obtain a where "get_address_offset operand = Some a"
      by blast
    with GetData_select [OF op] show ?thesis
      by (auto simp: MME1536_GetOperand_m_def Let_def split: prod.splits
            dest: arg_cong [where f = snd])
  qed
  moreover have "fst (MME1536_GetOperand buf operand len w) = Ret (-1)
      \<and> reported_only w (snd (snd (MME1536_GetOperand buf operand len w)))"
    if "operand \<notin> {OPERAND_0, OPERAND_1, OPERAND_2, OPERAND_3} \<or> len \<notin> {BITS_LOW, BITS_HIGH, BITS_TOT}"
    using that
    by (auto simp: MME1536_GetOperand_def get_address_offset_def reported_only_def new_events_def
          printf_def emit_def is_report_def)
  moreover have "fst (MME1536_GetOperand_m dev buf operand w) = Ret (-1)
      \<and> reported_only w (snd (snd (MME1536_GetOperand_m dev buf operand w)))"
    if "operand \<notin> {OPERAND_0, OPERAND_1, OPERAND_2, OPERAND_3}"
    using that
    by (auto simp: MME1536_GetOperand_m_def get_address_offset_def reported_only_def new_events_def
          printf_def emit_def is_report_def)
  ultimately show ?thesis
    by blast
qed

theorem operand_read_overwrites_control_witness:
  "OPERAND_3 \<in> {OPERAND_0, OPERAND_1, OPERAND_2, OPERAND_3}
   \<and> BITS_HIGH \<in> {BITS_LOW, BITS_HIGH, BITS_TOT}
   \<and> MODULUS \<notin> {OPERAND_0, OPERAND_1, OPERAND_2, OPERAND_3}
   \<and> select_then_read OPERAND_3 world0 (snd (snd (MME1536_GetOperand one OPERAND_3 BITS_HIGH world0)))
   \<and> select_then_read OPERAND_3 world0 (snd (snd (MME1536_GetOperand_m dev_example one OPERAND_3 world0)))
   \<and> fst (MME1536_GetOperand one MODULUS BITS_HIGH world0) = Ret (-1)
   \<and> reported_only world0 (snd (snd (MME1536_GetOperand one MODULUS BITS_HIGH world0)))
   \<and> fst (MME1536_GetOperand_m dev_example one MODULUS world0) = Ret (-1)
   \<and> reported_only world0 (snd (snd (MME1536_GetOperand_m dev_example one MODULUS world0)))"
  using operand_read_overwrites_control [of OPERAND_3 BITS_HIGH world0 one dev_example]
    operand_read_overwrites_control [of MODULUS BITS_HIGH world0 one dev_example]
  by simp

text \<open>
  C2. After \<open>MME1536_SetOperand\<close> of \<open>data\<close> to a working slot at a supported width,
  \<open>MME1536_GetOperand\<close> of that slot at that width succeeds and gives the words of
  \<open>data\<close> back; read at full width, the part of the slot that a 512-bit or a 1024-bit
  operand does not occupy holds zeros.
\<close>

theorem operand_round_trip:
  assumes op: "operand \<in> {OPERAND_0, OPERAND_1, OPERAND_2, OPERAND_3}"
      and len: "len \<in> {BITS_LOW, BITS_HIGH, BITS_TOT}"
  shows "(let w1 = snd (MME1536_SetOperand data operand len w);
              back = fst (snd (MME1536_GetOperand buf operand len w1));
              slot = fst (snd (MME1536_GetOperand buf operand BITS_TOT w1))
          in fst (MME1536_SetOperand data operand len w) = Ret 0
             \<and> fst (MME1536_GetOperand buf operand len w1) = Ret 0
             \<and> map back [0..<nat (len div 32)] = map data [0..<nat (len div 32)]
             \<and> (len = BITS_LOW \<longrightarrow> (\<forall>i. WORDS_LOW \<le> i \<and> i < WORDS_TOT \<longrightarrow> slot i = 0))
             \<and> (len = BITS_HIGH \<longrightarrow> (\<forall>i. i < WORDS_LOW \<longrightarrow> slot i = 0)))"
proof -
  from get_offset_cases [OF op] obtain a where
    a: "get_address_offset operand = Some a" "set_address_offset operand = Some a" by blast
  define w1 where "w1 = snd (MME1536_SetOperand data operand len w)"
  have r1: "fst (MME1536_SetOperand data operand len w) = Ret 0"
    using len by (auto simp: MME1536_SetOperand_def a)
  have r2: "fst (MME1536_GetOperand buf operand len w1) = Ret 0"
    using len by (auto simp: MME1536_GetOperand_def a split: prod.splits)
  have rb: "fst (snd (MME1536_GetOperand buf operand len w1)) i = data i"
    if "i < nat (len div 32)" for i
  proof -
    have "fst (snd (MME1536_GetOperand buf operand len w1)) i =
            data_mem w1 (a + 4 * ((if len = BITS_HIGH then 16 else 0) + i))"
      using GetOperand_buf [OF a(1) len that, of buf w1] by (simp add: algebra_simps)
    also have "\<dots> = data i"
      unfolding w1_def using len that
      by (subst SetOperand_mem [OF a(2) len]) auto
    finally show ?thesis .
  qed
  have sl: "fst (snd (MME1536_GetOperand buf operand BITS_TOT w1)) i =
                (if len = BITS_LOW then (if i < 16 then data i else 0)
                 else if len = BITS_HIGH then (if 16 \<le> i then data (i - 16) else 0)
                 else data i)"
    if "i < 48" for i
  proof -
    have "fst (snd (MME1536_GetOperand buf operand BITS_TOT w1)) i = data_mem w1 (a + 4 * i)"
      using GetOperand_buf [OF a(1), of BITS_TOT i buf w1] that by simp
    then show ?thesis
      unfolding w1_def using SetOperand_mem [OF a(2) len that, of data w] by simp
  qed
  have m1: "map (fst (snd (MME1536_GetOperand buf operand len w1))) [0..<nat (len div 32)] =
            map data [0..<nat (len div 32)]"
    by (rule map_cong) (auto simp: rb)
  show ?thesis
    using r1 r2 m1 by (simp add: Let_def w1_def [symmetric] sl)
qed

theorem operand_round_trip_witness:
  "OPERAND_2 \<in> {OPERAND_0, OPERAND_1, OPERAND_2, OPERAND_3}
   \<and> BITS_HIGH \<in> {BITS_LOW, BITS_HIGH, BITS_TOT}
   \<and> fst (snd (MME1536_GetOperand one OPERAND_2 BITS_HIGH
                 (snd (MME1536_SetOperand exp_example OPERAND_2 BITS_HIGH world0)))) 0 = 0x12345678
   \<and> fst (snd (MME1536_GetOperand one OPERAND_2 BITS_TOT
                 (snd (MME1536_SetOperand exp_example OPERAND_2 BITS_HIGH world0)))) 3 = 0"
proof -
  have h1: "OPERAND_2 \<in> {OPERAND_0, OPERAND_1, OPERAND_2, OPERAND_3}" by simp
  have h2: "BITS_HIGH \<in> {BITS_LOW, BITS_HIGH, BITS_TOT}" by simp
  note t = operand_round_trip [OF h1 h2, of exp_example world0 one, unfolded Let_def]
  from t have "\<forall>i<32. fst (snd (MME1536_GetOperand one OPERAND_2 BITS_HIGH
                 (snd (MME1536_SetOperand exp_example OPERAND_2 BITS_HIGH world0)))) i = exp_example i"
    by simp
  moreover from t have "\<forall>i<16. fst (snd (MME1536_GetOperand one OPERAND_2 BITS_TOT
                 (snd (MME1536_SetOperand exp_example OPERAND_2 BITS_HIGH world0)))) i = 0"
    by simp
  ultimately show ?thesis
    by (simp add: exp_example_def)
qed

subsection \<open>Exponent feed\<close>

lemma hi_mask: "(0xffff0000 :: word32) = NOT (mask 16)" by (simp add: mask_eq_exp_minus_1)
lemma lo_mask: "(0x0000ffff :: word32) = mask 16" by (simp add: mask_eq_exp_minus_1)

lemma entry_hi_none: "drop_bit 16 ((a::word32) AND 0xffff0000) = right_justified (upper_half a)"
  unfolding hi_mask right_justified_def upper_half_def
  by (rule bit_word_eqI) (auto simp: bit_simps)

lemma entry_lo_none: "(a::word32) AND 0x0000ffff = right_justified (lower_half a)"
  unfolding lo_mask right_justified_def lower_half_def
  by (rule bit_word_eqI) (auto simp: bit_simps)

lemma entry_hi_some:
  "((b::word32) AND 0xffff0000) OR drop_bit 16 (a AND 0xffff0000) = packed (upper_half b) (upper_half a)"
  unfolding hi_mask packed_def upper_half_def
  by (rule bit_word_eqI) (auto simp: bit_simps)

lemma entry_lo_some:
  "push_bit 16 ((b::word32) AND 0x0000ffff) OR (a AND 0x0000ffff) = packed (lower_half b) (lower_half a)"
  unfolding lo_mask packed_def lower_half_def
  by (rule bit_word_eqI) (auto simp: bit_simps)

lemma fifo_entries_pair:
  "fifo_entries e0 e1 k = [fifo_entries e0 e1 k ! 0, fifo_entries e0 e1 k ! 1]"
  by (cases e1) (simp_all add: fifo_entries_def)

lemma SetExponent_loop_step:
  "SetExponent_loop (Suc k) e0 e1 w =
     SetExponent_loop k e0 e1
       (data_write FIFO_OFFSET (fifo_entries e0 e1 k ! 1)
         (data_write FIFO_OFFSET (fifo_entries e0 e1 k ! 0) w))"
proof (cases e1)
  case None
  show ?thesis
    unfolding None fifo_entries_def
    by (simp only: SetExponent_loop.simps Let_def option.case entry_hi_none entry_lo_none
          nth_Cons_0 One_nat_def nth_Cons_Suc)
next
  case (Some b)
  show ?thesis
    unfolding Some fifo_entries_def
    by (simp only: SetExponent_loop.simps Let_def option.case entry_hi_some entry_lo_some
          nth_Cons_0 One_nat_def nth_Cons_Suc)
qed

lemma SetExponent_loop_trace:
  "trace (SetExponent_loop k e0 e1 w) =
     trace w @ map (DataWrite FIFO_OFFSET) (concat (map (fifo_entries e0 e1) (rev [0..<k])))"
proof (induction k arbitrary: w)
  case 0
  then show ?case by simp
next
  case (Suc k)
  have "map (DataWrite FIFO_OFFSET) (fifo_entries e0 e1 k) =
          [DataWrite FIFO_OFFSET (fifo_entries e0 e1 k ! 0), DataWrite FIFO_OFFSET (fifo_entries e0 e1 k ! 1)]"
    by (subst fifo_entries_pair) simp
  then show ?case
    by (simp add: SetExponent_loop_step Suc.IH data_write_def emit_def del: SetExponent_loop.simps)
qed

text \<open>
  C3 (amended). For a bit length \<open>t\<close> that is a multiple of 32, \<open>MME1536_SetExponent\<close>
  does nothing but write to the streaming port, for the word indices from \<open>t/32 - 1\<close>
  down to 0, two entries each: the upper halves of \<open>e1\<close> and \<open>e0\<close> packed (\<open>e1\<close> in
  bits 31 to 16), then the lower halves packed; when \<open>e1\<close> is absent, the upper half of
  \<open>e0\<close> right-justified (in bits 15 to 0), then its lower half right-justified.
\<close>

theorem exponent_feed_entries:
  assumes "t smod 32 = 0"
  shows "new_events w (snd (MME1536_SetExponent e0 e1 t w)) =
           map (DataWrite FIFO_OFFSET) (concat (map (fifo_entries e0 e1) (rev [0..<nat (t sdiv 32)])))"
  using assms
  by (simp add: MME1536_SetExponent_def Let_def new_events_append SetExponent_loop_trace)

theorem exponent_feed_entries_witness:
  "(64::int) smod 32 = 0 \<and>
   new_events world0 (snd (MME1536_SetExponent exp_example (Some one) 64 world0)) =
     [DataWrite FIFO_OFFSET 0, DataWrite FIFO_OFFSET 0,
      DataWrite FIFO_OFFSET 0x00001234, DataWrite FIFO_OFFSET 0x00015678]"
proof -
  have h: "(64::int) smod 32 = 0" by (simp add: signed_modulo_int_def)
  have d: "nat ((64::int) sdiv 32) = 2" by (simp add: signed_divide_int_def)
  have l: "rev [0..<2] = [1, 0]" by (simp add: numeral_2_eq_2)
  show ?thesis
    using h exponent_feed_entries [OF h, of world0 exp_example "Some one"]
    apply (simp add: d l fifo_entries_def exp_example_def one_def packed_def upper_half_def lower_half_def word_cat_eq)
    done
qed

text \<open>
  C3 as stated fails: with \<open>e1\<close> absent the upper half \<open>0x1234\<close> of the word
  \<open>0x12345678\<close> is streamed as \<open>0x00001234\<close>, not left-justified as \<open>0x12340000\<close>.
\<close>

theorem exponent_feed_left_justified_counterexample:
  "new_events world0 (snd (MME1536_SetExponent exp_example None 32 world0)) =
     [DataWrite FIFO_OFFSET 0x00001234, DataWrite FIFO_OFFSET 0x00005678]
   \<and> left_justified (upper_half (exp_example 0)) = 0x12340000"
  apply (simp add: MME1536_SetExponent_def signed_modulo_int_def signed_divide_int_def Let_def
       new_events_def world0_def data_write_def emit_def exp_example_def left_justified_def upper_half_def)
  done

subsection \<open>Invalid arguments\<close>

text \<open>
  C8 (amended). \<open>MME1536_SetOperand\<close> with an unknown slot identifier or an unsupported
  width returns \<open>-1\<close>, and \<open>MME1536_SetExponent\<close> with a length that is no multiple
  of 32 returns (it is \<open>void\<close>: there is no code to return); each only prints a report
  and leaves the data region as it was.
\<close>

theorem invalid_input_aborts:
  "(operand \<notin> {OPERAND_0, OPERAND_1, OPERAND_2, OPERAND_3, MODULUS} \<or> len \<notin> {BITS_LOW, BITS_HIGH, BITS_TOT} \<longrightarrow>
      fst (MME1536_SetOperand data operand len w) = Ret (-1)
      \<and> reported_only w (snd (MME1536_SetOperand data operand len w)))
   \<and> (t smod 32 \<noteq> 0 \<longrightarrow>
      fst (MME1536_SetExponent e0 e1 t w) = Void
      \<and> reported_only w (snd (MME1536_SetExponent e0 e1 t w)))"
  by (auto simp: MME1536_SetOperand_def MME1536_SetExponent_def set_address_offset_def
        reported_only_def new_events_def printf_def emit_def is_report_def)

theorem invalid_input_aborts_witness:
  "7 \<notin> {OPERAND_0, OPERAND_1, OPERAND_2, OPERAND_3, MODULUS}
   \<and> (33::int) smod 32 \<noteq> 0
   \<and> fst (MME1536_SetOperand one 7 BITS_LOW world0) = Ret (-1)
   \<and> reported_only world0 (snd (MME1536_SetOperand one 7 BITS_LOW world0))
   \<and> fst (MME1536_SetExponent exp_example None 33 world0) = Void
   \<and> reported_only world0 (snd (MME1536_SetExponent exp_example None 33 world0))"
proof -
  have h: "(33::int) smod 32 \<noteq> 0" by (simp add: signed_modulo_int_def)
  show ?thesis
    using h invalid_input_aborts [of 7 BITS_LOW one world0 33 exp_example None] by simp
qed

text \<open>
  C8 as stated fails: what \<open>MME1536_SetExponent\<close> returns for the length 33 is no error
  code.
\<close>

theorem SetExponent_returns_no_code_counterexample:
  "\<not> is_error_code (fst (MME1536_SetExponent exp_example None 33 world0))"
  by (simp add: MME1536_SetExponent_def is_error_code_def signed_modulo_int_def)

subsection \<open>Interrupt wait\<close>

declare wait_loop.simps [simp del]

lemma uio_read_Some:
  assumes "uio_read buf w = Some (ip, w1)"
  obtains r rest where "uio w = r # rest" "ip = last_read buf [r]"
    "w1 = emit UioRead (w\<lparr>uio := rest\<rparr>)"
  using assms by (cases "uio w"; cases "hd (uio w)") (auto simp: uio_read_def)

lemma gettimeofday_Some:
  assumes "gettimeofday w = Some (time, w1)"
  obtains rest where "clock w = time # rest" "w1 = emit Gettimeofday (w\<lparr>clock := rest\<rparr>)"
  using assms by (cases "clock w") (auto simp: gettimeofday_def)

lemma last_read_append: "last_read buf (rs @ rs') = last_read (last_read buf rs) rs'"
  by (induction buf rs rule: last_read.induct) auto

lemma wait_loop_Some:
  assumes "wait_loop prev timeout ip w = Some (ip', w')"
  shows "\<exists>rs ts evs. uio w = rs @ uio w' \<and> clock w = ts @ clock w' \<and> length ts = length rs
           \<and> trace w' = trace w @ evs \<and> ctrl_mem w' = ctrl_mem w \<and> data_mem w' = data_mem w
           \<and> ip' = last_read ip rs \<and> UioWrite 1 \<notin> set evs
           \<and> ((prev < ip' \<and> TIMEOUT_WARNING \<notin> set evs)
                \<or> (rs \<noteq> [] \<and> timeout \<le> tv_usec (last ts) \<and> TIMEOUT_WARNING \<in> set evs))"
  using assms
proof (induction prev timeout ip w rule: wait_loop.induct)
  case (1 prev timeout ip w)
  show ?case
  proof (cases "ip \<le> prev")
    case False
    with "1.prems" have "ip' = ip" "w' = w"
      by (simp_all add: wait_loop.simps)
    with False show ?thesis
      by (intro exI [where x = "[]"]) simp
  next
    case True
    with "1.prems" obtain ip1 w1 where r: "uio_read ip w = Some (ip1, w1)"
      by (subst (asm) wait_loop.simps) (auto split: option.splits)
    with True "1.prems" obtain time w2 where g: "gettimeofday w1 = Some (time, w2)"
      by (subst (asm) wait_loop.simps) (auto split: option.splits)
    from r obtain r0 rest where u: "uio w = r0 # rest" "ip1 = last_read ip [r0]"
      "w1 = emit UioRead (w\<lparr>uio := rest\<rparr>)"
      by (rule uio_read_Some)
    from g obtain crest where c: "clock w1 = time # crest"
      "w2 = emit Gettimeofday (w1\<lparr>clock := crest\<rparr>)"
      by (rule gettimeofday_Some)
    show ?thesis
    proof (cases "timeout \<le> tv_usec time")
      case True
      with \<open>ip \<le> prev\<close> r g "1.prems"
      have "ip' = ip1" "w' = printf ''[WARNING] MME1536: WaitUntilReady() -> Timeout!'' [] w2"
        by (simp_all add: wait_loop.simps)
      with u c True show ?thesis
        apply (intro exI [where x = "[r0]"] exI [where x = "[time]"]
                 exI [where x = "[UioRead, Gettimeofday, TIMEOUT_WARNING]"])
        apply (simp add: emit_def printf_def)
        done
    next
      case False
      with \<open>ip \<le> prev\<close> r g "1.prems"
      have rec: "wait_loop prev timeout ip1 w2 = Some (ip', w')"
        by (simp add: wait_loop.simps)
      from "1.IH" [OF \<open>ip \<le> prev\<close> r refl g refl refl _ rec] False
      obtain rs ts evs where ih:
        "uio w2 = rs @ uio w'" "clock w2 = ts @ clock w'" "length ts = length rs"
        "trace w' = trace w2 @ evs" "ctrl_mem w' = ctrl_mem w2" "data_mem w' = data_mem w2"
        "ip' = last_read ip1 rs" "UioWrite 1 \<notin> set evs"
        "(prev < ip' \<and> TIMEOUT_WARNING \<notin> set evs)
           \<or> (rs \<noteq> [] \<and> timeout \<le> tv_usec (last ts) \<and> TIMEOUT_WARNING \<in> set evs)"
        by auto
      have ne: "rs \<noteq> [] \<Longrightarrow> ts \<noteq> []"
        using ih(3) by auto
      show ?thesis
        apply (intro exI [where x = "r0 # rs"] exI [where x = "time # ts"]
                 exI [where x = "UioRead # Gettimeofday # evs"])
        using ih u c ne
        apply (cases r0)
        apply (auto simp: emit_def)
        done
    qed
  qed
qed

lemma WaitUntilReady_Some:
  assumes "MME1536_WaitUntilReady dev w = Some (dev', w')"
  shows "\<exists>t0 rs ts evs. clock w = t0 # ts @ clock w' \<and> uio w = rs @ uio w' \<and> length ts = length rs
           \<and> trace w' = trace w @ Gettimeofday # evs @ [UioWrite 1] \<and> UioWrite 1 \<notin> set evs
           \<and> ctrl_mem w' = ctrl_mem w \<and> data_mem w' = data_mem w
           \<and> dev' = dev\<lparr>prev_tot_ints := last_read (-1) rs\<rparr>
           \<and> ((prev_tot_ints dev < last_read (-1) rs \<and> TIMEOUT_WARNING \<notin> set evs)
                \<or> (rs \<noteq> [] \<and> tv_usec t0 + TIMEOUT_US \<le> tv_usec (last ts)
                    \<and> TIMEOUT_WARNING \<in> set evs))"
proof -
  from assms obtain t0 w1 where g: "gettimeofday w = Some (t0, w1)"
    by (auto simp: MME1536_WaitUntilReady_def Let_def split: option.splits)
  with assms obtain ip w2 where
    l: "wait_loop (prev_tot_ints dev) (tv_usec t0 + TIMEOUT_US) (-1) w1 = Some (ip, w2)"
    and d: "dev' = dev\<lparr>prev_tot_ints := ip\<rparr>" and w': "w' = uio_write 1 w2"
    by (auto simp: MME1536_WaitUntilReady_def Let_def split: option.splits)
  from g obtain crest where c: "clock w = t0 # crest" "w1 = emit Gettimeofday (w\<lparr>clock := crest\<rparr>)"
    by (rule gettimeofday_Some)
  from wait_loop_Some [OF l] obtain rs ts evs where
    "uio w1 = rs @ uio w2" "clock w1 = ts @ clock w2" "length ts = length rs"
    "trace w2 = trace w1 @ evs" "ctrl_mem w2 = ctrl_mem w1" "data_mem w2 = data_mem w1"
    "ip = last_read (-1) rs" "UioWrite 1 \<notin> set evs"
    "(prev_tot_ints dev < ip \<and> TIMEOUT_WARNING \<notin> set evs)
      \<or> (rs \<noteq> [] \<and> tv_usec t0 + TIMEOUT_US \<le> tv_usec (last ts) \<and> TIMEOUT_WARNING \<in> set evs)"
    by blast
  with c d w' show ?thesis
    by (intro exI [where x = t0] exI [where x = rs] exI [where x = ts] exI [where x = evs])
       (simp add: emit_def uio_write_def)
qed

text \<open>
  C5 (amended). When \<open>MME1536_WaitUntilReady\<close> returns, either the read buffer
  (\<open>-1\<close> at the call, then what the last successful read put there) holds a count above
  the last-observed one, or a read was attempted and the clock then showed at least the
  microsecond count of the call plus 140000; the last-observed count is set to the read
  buffer's content, and the last thing done is re-arming the interrupt.
\<close>

theorem wait_exit:
  assumes "MME1536_WaitUntilReady dev w = Some (dev', w')"
  shows "(let rs = reads_during w w'; ts = times_during w w'; buf = last_read (-1) rs
          in (prev_tot_ints dev < buf
                \<or> (rs \<noteq> [] \<and> tv_usec (hd ts) + TIMEOUT_US \<le> tv_usec (last ts)))
             \<and> prev_tot_ints dev' = buf
             \<and> last (new_events w w') = UioWrite 1)"
proof -
  from WaitUntilReady_Some [OF assms] obtain t0 rs ts evs where h:
    "clock w = t0 # ts @ clock w'" "uio w = rs @ uio w'" "length ts = length rs"
    "trace w' = trace w @ Gettimeofday # evs @ [UioWrite 1]"
    "dev' = dev\<lparr>prev_tot_ints := last_read (-1) rs\<rparr>"
    "(prev_tot_ints dev < last_read (-1) rs \<and> TIMEOUT_WARNING \<notin> set evs)
       \<or> (rs \<noteq> [] \<and> tv_usec t0 + TIMEOUT_US \<le> tv_usec (last ts) \<and> TIMEOUT_WARNING \<in> set evs)"
    by blast
  have rs: "reads_during w w' = rs"
    unfolding reads_during_def using h(2) by simp
  have ts: "times_during w w' = t0 # ts"
    unfolding times_during_def using h(1) by simp
  have ne: "rs \<noteq> [] \<Longrightarrow> ts \<noteq> []"
    using h(3) by auto
  have ev: "new_events w w' = Gettimeofday # evs @ [UioWrite 1]"
    using h(4) by (simp add: new_events_def)
  show ?thesis
    using h(5,6) ne by (auto simp: Let_def rs ts ev)
qed




lemma silent_run:
  "MME1536_WaitUntilReady dev_example world_silent =
     Some (dev_example\<lparr>prev_tot_ints := -1\<rparr>, world_silent_after)"
  by (simp add: MME1536_WaitUntilReady_def gettimeofday_def world_silent_def world0_def emit_def
        wait_loop.simps uio_read_def at_usec_def dev_example_def printf_def uio_write_def
        world_silent_after_def)


lemma ready_run:
  "MME1536_WaitUntilReady dev_example world_ready =
     Some (dev_example\<lparr>prev_tot_ints := 6\<rparr>, world_ready_after)"
  by (simp add: MME1536_WaitUntilReady_def gettimeofday_def world_ready_def world0_def emit_def
        wait_loop.simps uio_read_def at_usec_def dev_example_def printf_def uio_write_def
        world_ready_after_def)


theorem wait_exit_witness:
  "MME1536_WaitUntilReady dev_example world_ready =
     Some (dev_example\<lparr>prev_tot_ints := 6\<rparr>, world_ready_after)
   \<and> reads_during world_ready world_ready_after = [Some 6]
   \<and> prev_tot_ints dev_example < last_read (-1) (reads_during world_ready world_ready_after)
   \<and> prev_tot_ints (dev_example\<lparr>prev_tot_ints := 6\<rparr>) = 6
   \<and> last (new_events world_ready world_ready_after) = UioWrite 1"
  using ready_run wait_exit [OF ready_run]
  by (simp add: Let_def reads_during_def world_ready_def world_ready_after_def world0_def
        dev_example_def)

text \<open>
  C5 as stated fails: no interrupt arrives, the one read fails, the deadline passes, and
  the last-observed count is set to \<open>-1\<close>, a value that no read delivered.
\<close>

theorem wait_sets_unread_value_counterexample:
  "MME1536_WaitUntilReady dev_example world_silent =
     Some (dev_example\<lparr>prev_tot_ints := -1\<rparr>, world_silent_after)
   \<and> reads_during world_silent world_silent_after = [None]
   \<and> prev_tot_ints (dev_example\<lparr>prev_tot_ints := -1\<rparr>) = -1"
  using silent_run
  by (simp add: reads_during_def world_silent_def world_silent_after_def world0_def)




subsection \<open>Counting waits\<close>

lemma adds_waits_trans:
  "adds_waits j w w1 \<Longrightarrow> adds_waits k w1 w2 \<Longrightarrow> adds_waits (j + k) w w2"
  by (auto simp: adds_waits_def waits_def)

lemma adds_waits_new_events: "adds_waits k w w' \<Longrightarrow> waits (new_events w w') = k"
  by (auto simp: adds_waits_def new_events_def)

lemma count_writes [simp]: "count_list (map (\<lambda>i. DataWrite (f i) (g i)) xs) (UioWrite v) = 0"
  by (induction xs) simp_all

lemma count_fifo [simp]: "count_list (map (DataWrite a) xs) (UioWrite v) = 0"
  by (induction xs) simp_all

lemma count_reads [simp]: "count_list (map (\<lambda>i. DataRead (f i)) xs) (UioWrite v) = 0"
  by (induction xs) simp_all

lemma SetOperand_m_quiet: "adds_waits 0 w (snd (MME1536_SetOperand_m dev data operand w))"
  by (auto simp: adds_waits_def MME1536_SetOperand_m_def MME1536_SetData_def SetData_loop_trace
        printf_def emit_def waits_def Let_def split: option.splits)

lemma StartSingle_m_quiet: "adds_waits 0 w (MME1536_StartSingle_m dev d x y w)"
  by (simp add: adds_waits_def MME1536_StartSingle_m_def ctrl_read_def ctrl_write_def usleep_def
        emit_def waits_def Let_def)

lemma StartAuto_m_quiet: "adds_waits 0 w (MME1536_StartAuto_m dev w)"
  by (simp add: adds_waits_def MME1536_StartAuto_m_def ctrl_write_def usleep_def
        emit_def waits_def Let_def)

lemma SetExponent_quiet: "adds_waits 0 w (snd (MME1536_SetExponent e0 e1 t w))"
  by (simp add: adds_waits_def MME1536_SetExponent_def SetExponent_loop_trace printf_def
        emit_def Let_def waits_def)

lemma GetOperand_m_quiet: "adds_waits 0 w (snd (snd (MME1536_GetOperand_m dev buf operand w)))"
  by (auto simp: adds_waits_def MME1536_GetOperand_m_def MME1536_GetData_def GetData_loop_eq
        ctrl_write_def printf_def emit_def Let_def waits_def split: option.splits)

lemma WaitUntilReady_once:
  assumes "MME1536_WaitUntilReady dev w = Some (dev', w')"
  shows "adds_waits 1 w w'"
proof -
  from WaitUntilReady_Some [OF assms] obtain evs where
    "trace w' = trace w @ Gettimeofday # evs @ [UioWrite 1]" "UioWrite 1 \<notin> set evs"
    by blast
  then show ?thesis
    by (auto simp: adds_waits_def waits_def)
qed

lemma Exp_m_waits:
  assumes "MME1536_Exp_m dev result g e t w = Some (res, dev', w')"
  shows "waits (new_events w w') = 4"
proof -
  define w0 where "w0 = MME1536_StartSingle_m dev OPERAND_0 OPERAND_0 OPERAND_1
      (snd (MME1536_SetOperand_m dev one OPERAND_2
        (snd (MME1536_SetOperand_m dev (R2 dev) OPERAND_1
          (snd (MME1536_SetOperand_m dev g OPERAND_0 w))))))"
  from assms obtain p1 p2 p3 p4 where
    t1: "MME1536_WaitUntilReady dev w0 = Some p1" and
    t2: "MME1536_WaitUntilReady (fst p1)
           (MME1536_StartSingle_m (fst p1) OPERAND_3 OPERAND_2 OPERAND_1 (snd p1)) = Some p2" and
    t3: "MME1536_WaitUntilReady (fst p2)
           (MME1536_StartAuto_m (fst p2) (snd (MME1536_SetExponent e None t (snd p2)))) = Some p3" and
    t4: "MME1536_WaitUntilReady (fst p3)
           (MME1536_StartSingle_m (fst p3) OPERAND_3 OPERAND_2 OPERAND_3 (snd p3)) = Some p4" and
    s5: "w' = snd (snd (MME1536_GetOperand_m (fst p4) result OPERAND_3 (snd p4)))"
    unfolding MME1536_Exp_m_def Let_def w0_def
    by (auto simp: bind_eq_Some_conv case_prod_beta)
  obtain d1 w1 where p1: "p1 = (d1, w1)" by (cases p1)
  obtain d2 w2 where p2: "p2 = (d2, w2)" by (cases p2)
  obtain d3 w3 where p3: "p3 = (d3, w3)" by (cases p3)
  obtain d4 w4 where p4: "p4 = (d4, w4)" by (cases p4)
  note s1 = t1 [unfolded p1] and s2 = t2 [unfolded p1 p2 fst_conv snd_conv]
    and s3 = t3 [unfolded p2 p3 fst_conv snd_conv] and s4 = t4 [unfolded p3 p4 fst_conv snd_conv]
  have "adds_waits 0 w w0"
    unfolding w0_def
    using adds_waits_trans [OF adds_waits_trans [OF adds_waits_trans
            [OF SetOperand_m_quiet SetOperand_m_quiet] SetOperand_m_quiet] StartSingle_m_quiet]
    by simp
  from adds_waits_trans [OF this WaitUntilReady_once [OF s1]]
  have "adds_waits 1 w w1" by simp
  from adds_waits_trans [OF adds_waits_trans [OF this StartSingle_m_quiet] WaitUntilReady_once [OF s2]]
  have "adds_waits 2 w w2" by (simp add: eval_nat_numeral)
  from adds_waits_trans [OF adds_waits_trans [OF adds_waits_trans
         [OF this SetExponent_quiet] StartAuto_m_quiet] WaitUntilReady_once [OF s3]]
  have "adds_waits 3 w w3" by (simp add: eval_nat_numeral)
  from adds_waits_trans [OF adds_waits_trans [OF this StartSingle_m_quiet] WaitUntilReady_once [OF s4]]
  have "adds_waits 4 w w4" by (simp add: eval_nat_numeral)
  from adds_waits_trans [OF this GetOperand_m_quiet, of d4 result OPERAND_3]
  have "adds_waits 4 w w'" by (simp add: s5 p4 eval_nat_numeral)
  then show ?thesis
    by (rule adds_waits_new_events)
qed

lemma SetExponent_loop_frame:
  "clock (SetExponent_loop k e0 e1 w) = clock w"
  "uio (SetExponent_loop k e0 e1 w) = uio w"
  by (induction k arbitrary: w; simp add: Let_def data_write_def emit_def)+

lemma SetOperand_m_env:
  "clock (snd (MME1536_SetOperand_m dev data operand w)) = clock w"
  "uio (snd (MME1536_SetOperand_m dev data operand w)) = uio w"
  by (auto simp: MME1536_SetOperand_m_def MME1536_SetData_def SetData_loop_frame printf_def
        emit_def Let_def split: option.splits)

lemma StartSingle_m_env:
  "clock (MME1536_StartSingle_m dev d x y w) = clock w"
  "uio (MME1536_StartSingle_m dev d x y w) = uio w"
  by (simp_all add: MME1536_StartSingle_m_def ctrl_read_def ctrl_write_def usleep_def emit_def Let_def)

lemma StartAuto_m_env:
  "clock (MME1536_StartAuto_m dev w) = clock w"
  "uio (MME1536_StartAuto_m dev w) = uio w"
  by (simp_all add: MME1536_StartAuto_m_def ctrl_write_def usleep_def emit_def Let_def)

lemma SetExponent_env:
  "clock (snd (MME1536_SetExponent e0 e1 t w)) = clock w"
  "uio (snd (MME1536_SetExponent e0 e1 t w)) = uio w"
  by (simp_all add: MME1536_SetExponent_def SetExponent_loop_frame printf_def emit_def Let_def)

lemma WaitUntilReady_immediate:
  assumes "clock w = t0 # t1 # ts" and "uio w = Some v # rs"
      and "-1 \<le> prev_tot_ints dev" and "prev_tot_ints dev < v"
  shows "\<exists>w'. MME1536_WaitUntilReady dev w = Some (dev\<lparr>prev_tot_ints := v\<rparr>, w')
               \<and> clock w' = ts \<and> uio w' = rs"
  using assms
  apply (simp add: MME1536_WaitUntilReady_def gettimeofday_def Let_def)
  apply (subst wait_loop.simps)
  apply (simp add: uio_read_def gettimeofday_def emit_def printf_def uio_write_def)
  apply (subst wait_loop.simps)
  apply (simp add: uio_write_def emit_def)
  done

lemma Exp_m_returns:
  assumes c: "clock w = c1 # c2 # c3 # c4 # c5 # c6 # c7 # c8 # cs"
      and u: "uio w = Some v1 # Some v2 # Some v3 # Some v4 # rs"
      and v: "-1 \<le> prev_tot_ints dev" "prev_tot_ints dev < v1" "v1 < v2" "v2 < v3" "v3 < v4"
  shows "MME1536_Exp_m dev result g e t w \<noteq> None"
proof -
  define w0 where "w0 = MME1536_StartSingle_m dev OPERAND_0 OPERAND_0 OPERAND_1
      (snd (MME1536_SetOperand_m dev one OPERAND_2
        (snd (MME1536_SetOperand_m dev (R2 dev) OPERAND_1
          (snd (MME1536_SetOperand_m dev g OPERAND_0 w))))))"
  have e0: "clock w0 = c1 # c2 # c3 # c4 # c5 # c6 # c7 # c8 # cs"
    "uio w0 = Some v1 # Some v2 # Some v3 # Some v4 # rs"
    by (simp_all add: w0_def StartSingle_m_env SetOperand_m_env c u)
  from WaitUntilReady_immediate [OF e0 v(1,2)] obtain w1 where
    s1: "MME1536_WaitUntilReady dev w0 = Some (dev\<lparr>prev_tot_ints := v1\<rparr>, w1)"
    and e1: "clock w1 = c3 # c4 # c5 # c6 # c7 # c8 # cs" "uio w1 = Some v2 # Some v3 # Some v4 # rs"
    by blast
  let ?d1 = "dev\<lparr>prev_tot_ints := v1\<rparr>"
  have "\<exists>w2. MME1536_WaitUntilReady ?d1 (MME1536_StartSingle_m ?d1 OPERAND_3 OPERAND_2 OPERAND_1 w1)
           = Some (?d1\<lparr>prev_tot_ints := v2\<rparr>, w2)
         \<and> clock w2 = c5 # c6 # c7 # c8 # cs \<and> uio w2 = Some v3 # Some v4 # rs"
    using v by (intro WaitUntilReady_immediate) (simp_all add: StartSingle_m_env e1)
  then obtain w2 where
    s2: "MME1536_WaitUntilReady ?d1 (MME1536_StartSingle_m ?d1 OPERAND_3 OPERAND_2 OPERAND_1 w1)
           = Some (?d1\<lparr>prev_tot_ints := v2\<rparr>, w2)"
    and e2: "clock w2 = c5 # c6 # c7 # c8 # cs" "uio w2 = Some v3 # Some v4 # rs"
    by blast
  let ?d2 = "?d1\<lparr>prev_tot_ints := v2\<rparr>"
  have "\<exists>w3. MME1536_WaitUntilReady ?d2
            (MME1536_StartAuto_m ?d2 (snd (MME1536_SetExponent e None t w2)))
           = Some (?d2\<lparr>prev_tot_ints := v3\<rparr>, w3)
         \<and> clock w3 = c7 # c8 # cs \<and> uio w3 = Some v4 # rs"
    using v by (intro WaitUntilReady_immediate) (simp_all add: StartAuto_m_env SetExponent_env e2)
  then obtain w3 where
    s3: "MME1536_WaitUntilReady ?d2
            (MME1536_StartAuto_m ?d2 (snd (MME1536_SetExponent e None t w2)))
           = Some (?d2\<lparr>prev_tot_ints := v3\<rparr>, w3)"
    and e3: "clock w3 = c7 # c8 # cs" "uio w3 = Some v4 # rs"
    by blast
  let ?d3 = "?d2\<lparr>prev_tot_ints := v3\<rparr>"
  have "\<exists>w4. MME1536_WaitUntilReady ?d3 (MME1536_StartSingle_m ?d3 OPERAND_3 OPERAND_2 OPERAND_3 w3)
           = Some (?d3\<lparr>prev_tot_ints := v4\<rparr>, w4)
         \<and> clock w4 = cs \<and> uio w4 = rs"
    using v by (intro WaitUntilReady_immediate) (simp_all add: StartSingle_m_env e3)
  then obtain w4 where
    s4: "MME1536_WaitUntilReady ?d3 (MME1536_StartSingle_m ?d3 OPERAND_3 OPERAND_2 OPERAND_3 w3)
           = Some (?d3\<lparr>prev_tot_ints := v4\<rparr>, w4)"
    by blast
  show ?thesis
    unfolding MME1536_Exp_m_def Let_def w0_def [symmetric]
    using s1 s2 s3 s4 by (simp add: case_prod_beta)
qed

lemma milestones_append: "milestones (es @ es') = milestones es @ milestones es'"
  by (induction es rule: milestones.induct) auto

lemma adds_milestones_trans:
  "adds_milestones ms w w1 \<Longrightarrow> adds_milestones ms' w1 w2 \<Longrightarrow> adds_milestones (ms @ ms') w w2"
  by (auto simp: adds_milestones_def milestones_append)

lemma adds_milestones_new_events: "adds_milestones ms w w' \<Longrightarrow> milestones (new_events w w') = ms"
  by (auto simp: adds_milestones_def new_events_def)

lemma milestones_loads:
  "(\<forall>i \<in> set xs. f i \<noteq> FIFO_OFFSET) \<Longrightarrow>
     milestones (map (\<lambda>i. DataWrite (f i) (g i)) xs) = replicate (length xs) Loaded"
  by (induction xs) simp_all

lemma milestones_feeds: "milestones (map (DataWrite FIFO_OFFSET) xs) = replicate (length xs) Fed"
  by (induction xs) simp_all

lemma milestones_reads: "milestones (map (\<lambda>i. DataRead (f i)) xs) = replicate (length xs) ReadBack"
  by (induction xs) simp_all

lemma SetOperand_m_steps:
  assumes "operand \<in> {OPERAND_0, OPERAND_1, OPERAND_2, OPERAND_3}"
  shows "adds_milestones
           (replicate (if mme_n dev \<in> {BITS_LOW, BITS_HIGH, BITS_TOT} then WORDS_TOT else 0) Loaded)
           w (snd (MME1536_SetOperand_m dev data operand w))"
proof -
  from get_offset_cases [OF assms] obtain a where
    a: "set_address_offset operand = Some a" "a \<in> {OP0_OFFSET, OP1_OFFSET, OP2_OFFSET, OP3_OFFSET}"
    by blast
  have m: "milestones (map (\<lambda>i. DataWrite (a + 4 * i) (d i)) [0..<48]) = replicate 48 Loaded" for d
    using a(2) milestones_loads [of "[0..<48]" "\<lambda>i. a + 4 * i" d] by auto
  show ?thesis
    using m
    by (auto simp: adds_milestones_def MME1536_SetOperand_m_def MME1536_SetData_def
          SetData_loop_trace a(1) printf_def emit_def Let_def)
qed

lemma shl_low_bit: "n < k \<Longrightarrow> \<not> bit (shl v k) n"
  by (simp add: shl_def bit_push_bit_iff)

lemma single_start_bits:
  "bit ((c AND 0x003fffff) OR (shl p P_SEL_BITS OR shl d DEST_BITS
          OR shl x X_OP_BITS OR shl y Y_OP_BITS OR 0x00800000)) 23"
  "\<not> bit ((c AND 0x003fffff) OR (shl p P_SEL_BITS OR shl d DEST_BITS
          OR shl x X_OP_BITS OR shl y Y_OP_BITS OR 0x00800000)) 22"
  by (simp_all add: bit_or_iff bit_and_iff bit_start_iff bit_keep_iff shl_low_bit
        del: bit_numeral_word_iff)

lemma auto_start_bits:
  "bit (0x00c00000 OR shl p P_SEL_BITS) 23"
  "bit (0x00c00000 OR shl p P_SEL_BITS) 22"
  by (simp_all add: bit_or_iff bit_both_iff del: bit_numeral_word_iff)

lemma StartSingle_m_steps:
  "adds_milestones [Control True False, Control False False] w (MME1536_StartSingle_m dev d x y w)"
  using single_start_bits [of "ctrl_mem w 0" "mme_part dev" d x y]
  by (simp add: adds_milestones_def MME1536_StartSingle_m_def ctrl_read_def ctrl_write_def
        usleep_def emit_def Let_def clear_start bit_unset_bit_iff)

lemma StartAuto_m_steps:
  "adds_milestones [Control True True, Control False True] w (MME1536_StartAuto_m dev w)"
  using auto_start_bits [of "mme_part dev"]
  by (simp add: adds_milestones_def MME1536_StartAuto_m_def ctrl_write_def
        usleep_def emit_def Let_def clear_start bit_unset_bit_iff)

lemma length_fifo_stream:
  "length (concat (map (fifo_entries e0 e1) (rev [0..<k]))) = 2 * k"
  by (induction k) (simp_all add: fifo_entries_def split: option.splits)

lemma SetExponent_steps:
  "adds_milestones (replicate (if t smod 32 = 0 then 2 * nat (t sdiv 32) else 0) Fed)
     w (snd (MME1536_SetExponent e0 e1 t w))"
  by (simp add: adds_milestones_def MME1536_SetExponent_def SetExponent_loop_trace printf_def
        emit_def Let_def milestones_feeds length_fifo_stream)

lemma GetOperand_m_steps:
  "adds_milestones (Control False False # replicate (nat (mme_words dev)) ReadBack)
     w (snd (snd (MME1536_GetOperand_m dev buf OPERAND_3 w)))"
  by (simp add: adds_milestones_def MME1536_GetOperand_m_def MME1536_GetData_def GetData_loop_eq
        get_address_offset_def ctrl_write_def emit_def Let_def milestones_reads shl_def)

lemma wait_loop_steps:
  assumes "wait_loop prev timeout ip w = Some (ip', w')"
  shows "adds_milestones [] w w'"
  using assms
proof (induction prev timeout ip w rule: wait_loop.induct)
  case (1 prev timeout ip w)
  show ?case
  proof (cases "ip \<le> prev")
    case False
    with "1.prems" have "w' = w"
      by (simp add: wait_loop.simps)
    then show ?thesis
      by (simp add: adds_milestones_def)
  next
    case True
    with "1.prems" obtain ip1 w1 where r: "uio_read ip w = Some (ip1, w1)"
      by (subst (asm) wait_loop.simps) (auto split: option.splits)
    with True "1.prems" obtain time w2 where g: "gettimeofday w1 = Some (time, w2)"
      by (subst (asm) wait_loop.simps) (auto split: option.splits)
    from r obtain r0 rest where u: "w1 = emit UioRead (w\<lparr>uio := rest\<rparr>)"
      by (rule uio_read_Some)
    from g obtain crest where c: "w2 = emit Gettimeofday (w1\<lparr>clock := crest\<rparr>)"
      by (rule gettimeofday_Some)
    have step: "adds_milestones [] w w2"
      by (simp add: adds_milestones_def u c emit_def)
    show ?thesis
    proof (cases "timeout \<le> tv_usec time")
      case True
      with \<open>ip \<le> prev\<close> r g "1.prems"
      have "w' = printf ''[WARNING] MME1536: WaitUntilReady() -> Timeout!'' [] w2"
        by (simp add: wait_loop.simps)
      then show ?thesis
        by (simp add: adds_milestones_def u c emit_def printf_def)
    next
      case False
      with \<open>ip \<le> prev\<close> r g "1.prems"
      have rec: "wait_loop prev timeout ip1 w2 = Some (ip', w')"
        by (simp add: wait_loop.simps)
      from "1.IH" [OF \<open>ip \<le> prev\<close> r refl g refl refl _ rec] False
      have "adds_milestones [] w2 w'"
        by simp
      from adds_milestones_trans [OF step this] show ?thesis
        by simp
    qed
  qed
qed

lemma WaitUntilReady_steps:
  assumes "MME1536_WaitUntilReady dev w = Some (dev', w')"
  shows "adds_milestones [Waited] w w'"
    and "mme_n dev' = mme_n dev" and "mme_words dev' = mme_words dev" and "mme_part dev' = mme_part dev"
proof -
  from assms obtain t0 w1 where g: "gettimeofday w = Some (t0, w1)"
    by (auto simp: MME1536_WaitUntilReady_def Let_def split: option.splits)
  with assms obtain ip w2 where
    l: "wait_loop (prev_tot_ints dev) (tv_usec t0 + TIMEOUT_US) (-1) w1 = Some (ip, w2)"
    and d: "dev' = dev\<lparr>prev_tot_ints := ip\<rparr>" and w': "w' = uio_write 1 w2"
    by (auto simp: MME1536_WaitUntilReady_def Let_def split: option.splits)
  from g obtain crest where c: "w1 = emit Gettimeofday (w\<lparr>clock := crest\<rparr>)"
    by (rule gettimeofday_Some)
  have a: "adds_milestones [] w w1"
    by (simp add: adds_milestones_def c emit_def)
  have b: "adds_milestones [Waited] w2 w'"
    by (simp add: adds_milestones_def w' uio_write_def emit_def)
  from adds_milestones_trans [OF adds_milestones_trans [OF a wait_loop_steps [OF l]] b]
  show "adds_milestones [Waited] w w'"
    by simp
  show "mme_n dev' = mme_n dev" "mme_words dev' = mme_words dev" "mme_part dev' = mme_part dev"
    by (simp_all add: d)
qed

lemma Exp_m_skeleton:
  assumes "MME1536_Exp_m dev result g e t w = Some (res, dev', w')"
  shows "milestones (new_events w w') =
           exp_skeleton (if mme_n dev \<in> {BITS_LOW, BITS_HIGH, BITS_TOT} then 3 * WORDS_TOT else 0)
             (if t smod 32 = 0 then 2 * nat (t sdiv 32) else 0)
             (nat (mme_words dev))"
proof -
  define w0 where "w0 = MME1536_StartSingle_m dev OPERAND_0 OPERAND_0 OPERAND_1
      (snd (MME1536_SetOperand_m dev one OPERAND_2
        (snd (MME1536_SetOperand_m dev (R2 dev) OPERAND_1
          (snd (MME1536_SetOperand_m dev g OPERAND_0 w))))))"
  from assms obtain p1 p2 p3 p4 where
    t1: "MME1536_WaitUntilReady dev w0 = Some p1" and
    t2: "MME1536_WaitUntilReady (fst p1)
           (MME1536_StartSingle_m (fst p1) OPERAND_3 OPERAND_2 OPERAND_1 (snd p1)) = Some p2" and
    t3: "MME1536_WaitUntilReady (fst p2)
           (MME1536_StartAuto_m (fst p2) (snd (MME1536_SetExponent e None t (snd p2)))) = Some p3" and
    t4: "MME1536_WaitUntilReady (fst p3)
           (MME1536_StartSingle_m (fst p3) OPERAND_3 OPERAND_2 OPERAND_3 (snd p3)) = Some p4" and
    s5: "w' = snd (snd (MME1536_GetOperand_m (fst p4) result OPERAND_3 (snd p4)))"
    unfolding MME1536_Exp_m_def Let_def w0_def
    by (auto simp: bind_eq_Some_conv case_prod_beta)
  obtain d1 w1 where p1: "p1 = (d1, w1)" by (cases p1)
  obtain d2 w2 where p2: "p2 = (d2, w2)" by (cases p2)
  obtain d3 w3 where p3: "p3 = (d3, w3)" by (cases p3)
  obtain d4 w4 where p4: "p4 = (d4, w4)" by (cases p4)
  note s1 = t1 [unfolded p1] and s2 = t2 [unfolded p1 p2 fst_conv snd_conv]
    and s3 = t3 [unfolded p2 p3 fst_conv snd_conv] and s4 = t4 [unfolded p3 p4 fst_conv snd_conv]
  have words: "mme_words d4 = mme_words dev"
    by (simp add: WaitUntilReady_steps(3) [OF s1] WaitUntilReady_steps(3) [OF s2]
          WaitUntilReady_steps(3) [OF s3] WaitUntilReady_steps(3) [OF s4])
  let ?k = "if mme_n dev \<in> {BITS_LOW, BITS_HIGH, BITS_TOT} then WORDS_TOT else 0"
  let ?f = "if t smod 32 = 0 then 2 * nat (t sdiv 32) else 0"
  define v1 where "v1 = snd (MME1536_SetOperand_m dev g OPERAND_0 w)"
  define v2 where "v2 = snd (MME1536_SetOperand_m dev (R2 dev) OPERAND_1 v1)"
  define v3 where "v3 = snd (MME1536_SetOperand_m dev one OPERAND_2 v2)"
  have l1: "adds_milestones (replicate ?k Loaded) w v1"
    unfolding v1_def by (rule SetOperand_m_steps) simp
  have l2: "adds_milestones (replicate ?k Loaded) v1 v2"
    unfolding v2_def by (rule SetOperand_m_steps) simp
  have l3: "adds_milestones (replicate ?k Loaded) v2 v3"
    unfolding v3_def by (rule SetOperand_m_steps) simp
  have w0: "w0 = MME1536_StartSingle_m dev OPERAND_0 OPERAND_0 OPERAND_1 v3"
    by (simp add: w0_def v1_def v2_def v3_def)
  have "adds_milestones
          (((replicate ?k Loaded @ replicate ?k Loaded) @ replicate ?k Loaded)
             @ [Control True False, Control False False]) w w0"
    unfolding w0
    by (rule adds_milestones_trans [OF adds_milestones_trans [OF adds_milestones_trans
          [OF l1 l2] l3] StartSingle_m_steps])
  from adds_milestones_trans [OF this WaitUntilReady_steps(1) [OF s1]]
  have a1: "adds_milestones
          ((((replicate ?k Loaded @ replicate ?k Loaded) @ replicate ?k Loaded)
             @ [Control True False, Control False False]) @ [Waited]) w w1" .
  from adds_milestones_trans [OF adds_milestones_trans [OF a1 StartSingle_m_steps]
         WaitUntilReady_steps(1) [OF s2]]
  have a2: "adds_milestones
          ((((((replicate ?k Loaded @ replicate ?k Loaded) @ replicate ?k Loaded)
             @ [Control True False, Control False False]) @ [Waited])
             @ [Control True False, Control False False]) @ [Waited]) w w2" .
  from adds_milestones_trans [OF adds_milestones_trans [OF adds_milestones_trans
         [OF a2 SetExponent_steps] StartAuto_m_steps] WaitUntilReady_steps(1) [OF s3]]
  have a3: "adds_milestones
          (((((((((replicate ?k Loaded @ replicate ?k Loaded) @ replicate ?k Loaded)
             @ [Control True False, Control False False]) @ [Waited])
             @ [Control True False, Control False False]) @ [Waited])
             @ replicate ?f Fed) @ [Control True True, Control False True]) @ [Waited]) w w3" .
  from adds_milestones_trans [OF adds_milestones_trans [OF adds_milestones_trans
         [OF a3 StartSingle_m_steps] WaitUntilReady_steps(1) [OF s4]]
         GetOperand_m_steps [of d4 w4 result]]
  have "adds_milestones
          ((((((((((((replicate ?k Loaded @ replicate ?k Loaded) @ replicate ?k Loaded)
             @ [Control True False, Control False False]) @ [Waited])
             @ [Control True False, Control False False]) @ [Waited])
             @ replicate ?f Fed) @ [Control True True, Control False True]) @ [Waited])
             @ [Control True False, Control False False]) @ [Waited])
             @ Control False False # replicate (nat (mme_words d4)) ReadBack) w w'"
    by (simp only: s5 p4 fst_conv snd_conv)
  from adds_milestones_new_events [OF this] show ?thesis
    by (simp add: exp_skeleton_def words replicate_add [symmetric] del: replicate.simps)
qed


text \<open>
  C7 (amended). Every execution of \<open>MME1536_Exp_m\<close> that returns has gone through the
  interrupt wait exactly four times: once after each of the two single steps that prepare
  the operands, once after the auto-run, and once after the single step of the
  post-computation, each wait coming after the two control writes of its start and before
  the next access to the hardware; the loads come first, the exponent is fed between the
  second wait and the auto-run, and the read-back comes last.
\<close>

theorem exponentiate_waits:
  assumes "MME1536_Exp_m dev result g e t w = Some (res, dev', w')"
  shows "waits (new_events w w') = 4
         \<and> milestones (new_events w w') =
             exp_skeleton (if mme_n dev \<in> {BITS_LOW, BITS_HIGH, BITS_TOT} then 3 * WORDS_TOT else 0)
               (if t smod 32 = 0 then 2 * nat (t sdiv 32) else 0)
               (nat (mme_words dev))"
  using Exp_m_waits [OF assms] Exp_m_skeleton [OF assms] by simp

theorem exponentiate_waits_witness:
  "MME1536_Exp_m dev_example one exp_example exp_example 32 world_four \<noteq> None
   \<and> waits (new_events world_four
        (snd (snd (the (MME1536_Exp_m dev_example one exp_example exp_example 32 world_four))))) = 4
   \<and> milestones (new_events world_four
        (snd (snd (the (MME1536_Exp_m dev_example one exp_example exp_example 32 world_four)))))
       = exp_skeleton 144 2 16"
proof -
  have r: "MME1536_Exp_m dev_example one exp_example exp_example 32 world_four \<noteq> None"
    by (rule Exp_m_returns [where ?v1.0 = 6 and ?v2.0 = 7 and ?v3.0 = 8 and ?v4.0 = 9])
       (simp_all add: world_four_def world0_def dev_example_def)
  then obtain res d w' where
    s: "MME1536_Exp_m dev_example one exp_example exp_example 32 world_four = Some (res, d, w')"
    by (cases "MME1536_Exp_m dev_example one exp_example exp_example 32 world_four") auto
  have k: "(if mme_n dev_example \<in> {BITS_LOW, BITS_HIGH, BITS_TOT} then 3 * WORDS_TOT else 0) = 144"
    "(if (32::int) smod 32 = 0 then 2 * nat (32 sdiv 32) else 0) = 2"
    "nat (mme_words dev_example) = 16"
    by (simp_all add: dev_example_def signed_modulo_int_def signed_divide_int_def)
  from exponentiate_waits [OF s, unfolded k] r s show ?thesis by simp
qed

text \<open>C7 as stated fails: a run of \<open>MME1536_Exp_m\<close> that returns has not waited five times.\<close>

theorem exponentiate_waits_five_counterexample:
  "MME1536_Exp_m dev_example one modulus_example one 0 world_four \<noteq> None
   \<and> waits (new_events world_four
        (snd (snd (the (MME1536_Exp_m dev_example one modulus_example one 0 world_four))))) \<noteq> 5"
proof -
  have r: "MME1536_Exp_m dev_example one modulus_example one 0 world_four \<noteq> None"
    by (rule Exp_m_returns [where ?v1.0 = 6 and ?v2.0 = 7 and ?v3.0 = 8 and ?v4.0 = 9])
       (simp_all add: world_four_def world0_def dev_example_def)
  then obtain res d w' where
    s: "MME1536_Exp_m dev_example one modulus_example one 0 world_four = Some (res, d, w')"
    by (cases "MME1536_Exp_m dev_example one modulus_example one 0 world_four") auto
  from Exp_m_waits [OF s] r s show ?thesis by simp
qed


subsection \<open>The Montgomery constant\<close>

declare mpz_export.simps [simp del]

lemma mpz_import_export: "mpz_import (mpz_export v) = v"
proof (induction v rule: mpz_export.induct)
  case (1 v)
  show ?case
  proof (cases "v = 0")
    case True
    then show ?thesis by (simp add: mpz_export.simps)
  next
    case False
    have "unat (word_of_nat v :: word32) = v mod 2 ^ 32"
      by (simp add: unat_of_nat)
    with False "1.IH" show ?thesis
      by (subst mpz_export.simps) simp
  qed
qed

lemma mpz_export_length: "v < 2 ^ (32 * k) \<Longrightarrow> length (mpz_export v) \<le> k"
proof (induction v arbitrary: k rule: mpz_export.induct)
  case (1 v)
  show ?case
  proof (cases "v = 0")
    case True
    then show ?thesis by (simp add: mpz_export.simps)
  next
    case False
    with "1.prems" obtain j where k: "k = Suc j"
      by (cases k) auto
    from "1.prems" have "v div 2 ^ 32 < 2 ^ (32 * j)"
      by (simp add: k less_mult_imp_div_less power_add mult.commute)
    from "1.IH" [OF False this] False show ?thesis
      by (subst mpz_export.simps) (simp add: k)
  qed
qed

lemma mpz_import_bound: "mpz_import ws < 2 ^ (32 * length ws)"
proof (induction ws)
  case Nil
  then show ?case by simp
next
  case (Cons x ws)
  have "unat x < 2 ^ 32"
    using unsigned_less [of x] by simp
  moreover from Cons have "mpz_import ws + 1 \<le> 2 ^ (32 * length ws)"
    by simp
  then have "2 ^ 32 * (mpz_import ws + 1) \<le> 2 ^ 32 * 2 ^ (32 * length ws)"
    by (rule mult_le_mono2)
  ultimately show ?case
    by (simp add: power_add)
qed

lemma mpz_import_zeros: "mpz_import (ws @ replicate k 0) = mpz_import ws"
proof (induction ws)
  case Nil
  show ?case by (induction k) simp_all
next
  case (Cons x ws)
  then show ?case by simp
qed

lemma zero_loop_eq:
  "zero_loop k i buf = (\<lambda>j. if i \<le> j \<and> j < i + k then 0 else buf j)"
  by (induction k arbitrary: i buf) (auto simp: fun_eq_iff)

lemma stored_words:
  assumes "length ws \<le> k"
  shows "map (store_words ws (zero_loop k 0 buf)) [0..<k] = ws @ replicate (k - length ws) 0"
  using assms
  by (intro nth_equalityI) (auto simp: store_words_def zero_loop_eq nth_append)

lemma ComputeR2_value:
  assumes n: "n \<in> {BITS_LOW, BITS_HIGH, BITS_TOT}"
      and m: "mpz_import (map m [0..<nat (n div 32)]) \<noteq> 0"
  shows "\<exists>r2. MME1536_ComputeR2 (zero_loop WORDS_TOT 0 buf) m n = Some r2
              \<and> mpz_import (map r2 [0..<WORDS_TOT]) =
                  2 ^ nat (2 * n) mod mpz_import (map m [0..<nat (n div 32)])"
proof -
  define M where "M = mpz_import (map m [0..<nat (n div 32)])"
  define v where "v = 2 ^ nat (2 * n) mod M"
  from n have u: "to_unsigned n div 32 = nat (n div 32)" "to_unsigned (2 * n) = nat (2 * n)"
    by (auto simp: to_unsigned_def)
  have "M < 2 ^ (32 * nat (n div 32))"
    unfolding M_def using mpz_import_bound [of "map m [0..<nat (n div 32)]"] by simp
  also have "\<dots> \<le> 2 ^ (32 * 48)"
    using n by (intro power_increasing) auto
  finally have "M < 2 ^ (32 * 48)" .
  moreover have "v < M"
    unfolding v_def using m by (simp add: M_def)
  ultimately have "v < 2 ^ (32 * 48)"
    by simp
  then have len: "length (mpz_export v) \<le> 48"
    by (rule mpz_export_length)
  have c: "MME1536_ComputeR2 (zero_loop 48 0 buf) m n =
             Some (store_words (mpz_export v) (zero_loop 48 0 buf))"
    using m by (simp add: MME1536_ComputeR2_def u mpz_powm_ui_def M_def v_def)
  have "mpz_import (map (store_words (mpz_export v) (zero_loop 48 0 buf)) [0..<48]) = v"
    by (simp only: stored_words [OF len] mpz_import_zeros mpz_import_export)
  with c show ?thesis
    by (simp add: v_def M_def)
qed

text \<open>
  C1. For a supported width \<open>n\<close> and an odd modulus given by the \<open>n/32\<close> words at
  \<open>m\<close>, \<open>MME1536_UpdateModulus\<close> returns, the 48 words of the session's \<open>R2\<close>
  buffer then are, least significant word first, the number \<open>2^(2n) mod m\<close>, and the
  modulus slot of the data region holds the words of \<open>m\<close> (in its upper 32 words for
  the 1024-bit width) and zeros elsewhere.
\<close>

theorem modulus_update:
  assumes n: "n \<in> {BITS_LOW, BITS_HIGH, BITS_TOT}"
      and m: "odd (mpz_import (map m [0..<nat (n div 32)]))"
  shows "(case MME1536_UpdateModulus dev m n w of
            None \<Rightarrow> False
          | Some (dev', w') \<Rightarrow>
              mpz_import (map (R2 dev') [0..<WORDS_TOT]) =
                2 ^ nat (2 * n) mod mpz_import (map m [0..<nat (n div 32)])
              \<and> (\<forall>i. i < WORDS_TOT \<longrightarrow> data_mem w' (M_OFFSET + ADDR_STEP * i) =
                    (if n = BITS_LOW then (if i < WORDS_LOW then m i else 0)
                     else if n = BITS_HIGH then (if WORDS_LOW \<le> i then m (i - WORDS_LOW) else 0)
                     else m i)))"
proof -
  from m have "mpz_import (map m [0..<nat (n div 32)]) \<noteq> 0"
    by (auto elim: oddE)
  from ComputeR2_value [OF n this, of "R2 dev"] obtain r2 where
    r2: "MME1536_ComputeR2 (zero_loop WORDS_TOT 0 (R2 dev)) m n = Some r2"
        "mpz_import (map r2 [0..<WORDS_TOT]) =
           2 ^ nat (2 * n) mod mpz_import (map m [0..<nat (n div 32)])"
    by blast
  have s: "set_address_offset MODULUS = Some M_OFFSET"
    by (simp add: set_address_offset_def)
  have "MME1536_UpdateModulus dev m n w =
          Some (dev\<lparr>mme_part := (if n = BITS_LOW then LOW_PART else if n = BITS_HIGH then HIGH_PART else TOT_PIPELINE),
                     mme_n := n, mme_words := n sdiv 32, R2 := r2\<rparr>,
                snd (MME1536_SetOperand m MODULUS n w))"
    using n r2(1) by (auto simp: MME1536_UpdateModulus_def Let_def)
  then show ?thesis
    using r2(2) SetOperand_mem [OF s n, of _ m w] by simp
qed

theorem modulus_update_witness:
  "BITS_LOW \<in> {BITS_LOW, BITS_HIGH, BITS_TOT}
   \<and> odd (mpz_import (map modulus_example [0..<nat (BITS_LOW div 32)]))
   \<and> MME1536_UpdateModulus dev_example modulus_example BITS_LOW world0 \<noteq> None
   \<and> mpz_import (map (R2 (fst (the (MME1536_UpdateModulus dev_example modulus_example BITS_LOW world0))))
        [0..<WORDS_TOT]) = 1
   \<and> data_mem (snd (the (MME1536_UpdateModulus dev_example modulus_example BITS_LOW world0))) M_OFFSET = 3"
proof -
  have h1: "BITS_LOW \<in> {BITS_LOW, BITS_HIGH, BITS_TOT}" by simp
  have v: "mpz_import (map modulus_example [0..<nat (BITS_LOW div 32)]) = 3"
    by (simp add: modulus_example_def upt_conv_Cons)
  have h2: "odd (mpz_import (map modulus_example [0..<nat (BITS_LOW div 32)]))"
    unfolding v by simp
  have "nat (2 * BITS_LOW) = 2 * 512"
    by simp
  then have "(2::nat) ^ nat (2 * BITS_LOW) mod 3 = (2 ^ 2) ^ 512 mod 3"
    by (simp only: power_mult)
  also have "\<dots> = (2 ^ 2 mod 3) ^ 512 mod 3"
    by (simp only: power_mod)
  also have "\<dots> = 1"
    by simp
  finally have p: "(2::nat) ^ nat (2 * BITS_LOW) mod 3 = 1" .
  note t = modulus_update [OF h1 h2, of dev_example world0, unfolded v p]
  from t obtain d w' where
    s: "MME1536_UpdateModulus dev_example modulus_example BITS_LOW world0 = Some (d, w')"
    and r: "mpz_import (map (R2 d) [0..<WORDS_TOT]) = 1"
    and mem: "\<forall>i. i < WORDS_TOT \<longrightarrow> data_mem w' (M_OFFSET + ADDR_STEP * i) =
                (if i < WORDS_LOW then modulus_example i else 0)"
    by (auto split: option.splits)
  from mem [THEN spec, of 0] have "data_mem w' M_OFFSET = 3"
    by (simp add: modulus_example_def)
  with h1 h2 s r show ?thesis
    by simp
qed


subsection \<open>Opening the session\<close>

lemma open_then_clean:
  assumes "MME1536_Initialize dev arg sys no_resources w = (Return 0, d, r, w')"
  shows "MME1536_Clean d r = no_resources"
  using assms
  by (auto simp: MME1536_Initialize_def MME1536_Clean_def Let_def failed1_def failed2_def
        sys_open_def sys_mmap_def sys_malloc_def sys_close_def sys_munmap_def sys_free_def
        no_resources_def split: if_splits option.splits prod.splits)

text \<open>
  Once /dev/mem is open and the data region is mapped, every return of \<open>-1\<close> leaves
  both in place.
\<close>

lemma failed_open_keeps_data:
  assumes "1 \<le> open_mem sys" and "mmap_data sys \<noteq> -1"
      and "MME1536_Initialize dev arg sys no_resources w = (Return (-1), d, r, w')"
  shows "open_mem sys \<in> set (fds r) \<and> mmap_data sys \<in> set (maps r)"
  using assms
  by (auto simp: MME1536_Initialize_def Let_def failed1_def failed2_def
        sys_open_def sys_mmap_def sys_malloc_def sys_close_def sys_munmap_def
        no_resources_def split: if_splits option.splits prod.splits)

text \<open>
  C4 fails on the code, which unwinds the control region only. When the UIO device cannot be opened,
  and when the allocation of \<open>R2\<close> fails, \<open>MME1536_Initialize\<close> returns \<open>-1\<close> with
  the descriptor of /dev/mem still open and the data region still mapped.
\<close>

theorem initialize_leaks_data_region:
  "(case MME1536_Initialize dev_example None sys_no_uio no_resources world0 of
      (out, d, r, w) \<Rightarrow> out = Return (-1) \<and> fds r = [3] \<and> maps r = [0x40002000])
   \<and> (case MME1536_Initialize dev_example None sys_no_memory no_resources world0 of
      (out, d, r, w) \<Rightarrow> out = Return (-1) \<and> fds r = [3] \<and> maps r = [0x40002000])"
  by (simp add: MME1536_Initialize_def Let_def failed1_def failed2_def sys_no_uio_def sys_no_memory_def
        sys_open_def sys_mmap_def sys_malloc_def sys_close_def sys_munmap_def
        no_resources_def dev_example_def)


end
